theory Spec2Isabelle
  imports Main "HOL-Library.Word"
begin

unbundle bit_operations_syntax

section \<open>The RLDP HTTP transport of tonutils-go (adnl/rldp/http/client.go)\<close>

text \<open>
  Go values are modelled as follows. A \<open>string\<close> and a \<open>[]byte\<close> are byte sequences:
  text is a \<open>char list\<close>, binary data a list of 8-bit words. \<open>int32\<close> is a 32-bit word
  read with \<open>sint\<close>; \<open>int\<close> (64 bits on the targets of the module) and \<open>int64\<close> are
  mathematical integers where the code only compares, prints or adds values that cannot
  leave the 64-bit range. A function returning \<open>(T, error)\<close> returns an \<open>outcome\<close>:
  \<open>Return\<close> for the value, \<open>Fail\<close> for the error, \<open>Panic\<close> where the Go runtime
  panics (index or slice bounds out of range, nil pointer dereference, a slice
  capacity out of range), and \<open>Abort\<close> where it ends the process with a fatal error
  (out of memory).
\<close>

type_synonym byte = "8 word"

datatype error =
    WrongIdLength                      \<comment> \<open>"wrong id length"\<close>
  | CorruptInput                       \<comment> \<open>base32.CorruptInputError\<close>
  | DecodeAddress error                \<comment> \<open>"failed to decode address: %w"\<close>
  | InvalidFirstByte                   \<comment> \<open>"invalid first byte"\<close>
  | InvalidAddress                     \<comment> \<open>"invalid address"\<close>
  | External string                    \<comment> \<open>an error value produced by a collaborator\<close>
  | ParseAddress string error          \<comment> \<open>"failed to aprse adnl address %s, err: %w"\<close>
  | ResolveHost string error           \<comment> \<open>"failed to resolve host %s, err: %w"\<close>
  | FindAddress string string error    \<comment> \<open>"failed to find address of %s (%s) in DHT, err: %w"\<close>
  | InitAdnl string error              \<comment> \<open>"failed to init adnl for rldp connection %s, err: %w"\<close>
  | ConnectAdnl string error           \<comment> \<open>"failed to connect adnl for rldp connection %s, err: %w"\<close>
  | ConnectServers "string list" string error
                                       \<comment> \<open>"failed to connect to rldp servers %s of host %s, err: %w"\<close>
  | ReadBody error                     \<comment> \<open>"failed to read request body: %w"\<close>
  | QueryHttp error                    \<comment> \<open>"failed to query http over rldp: %w"\<close>
  | SyntaxError                        \<comment> \<open>strconv.ErrSyntax\<close>
  | RangeError                         \<comment> \<open>strconv.ErrRange\<close>
  | ParseContentLength error           \<comment> \<open>"failed to parse content length: %w"\<close>
  | QueryPartFailed "32 word" error          \<comment> \<open>"failed to query rldp response part %d: %w"\<close>
  | UnknownRequestId                   \<comment> \<open>"unknown request id"\<close>
  | TooBigOffset int                   \<comment> \<open>"too big offset for strea data size %d"\<close>
  | SendAnswerFailed error             \<comment> \<open>"failed to send answer: %w"\<close>
  | UnexpectedQueryType                \<comment> \<open>"unexpected query type %s"\<close>

datatype 'a outcome = Return 'a | Fail error | Panic | Abort

subsection \<open>Library functions used by the address codec\<close>

text \<open>
  \<open>strings.ToUpper\<close>. On a string whose bytes are all below \<open>utf8.RuneSelf\<close> (0x80) it
  maps \<open>'a'..'z'\<close> to \<open>'A'..'Z'\<close> byte by byte and keeps every other byte. Any other
  string goes through \<open>strings.Map(unicode.ToUpper, s)\<close>: the string is read rune by rune
  as \<open>range\<close> and \<open>utf8.DecodeRuneInString\<close> do (a byte that starts no well-formed
  sequence is the rune \<open>RuneError\<close> of width 1), every rune is mapped, and the result is
  written with \<open>WriteRune\<close>. The length in bytes can change.
\<close>

fun index_of :: "'a \<Rightarrow> 'a list \<Rightarrow> nat option" where
  "index_of x [] = None"
| "index_of x (y # ys) = (if x = y then Some 0 else map_option Suc (index_of x ys))"

definition is_ascii :: "string \<Rightarrow> bool" where
  "is_ascii s = list_all (\<lambda>c. (of_char c :: nat) < 128) s"

definition upper_byte :: "char \<Rightarrow> char" where
  "upper_byte c =
     (case index_of c ''abcdefghijklmnopqrstuvwxyz'' of
        Some i \<Rightarrow> ''ABCDEFGHIJKLMNOPQRSTUVWXYZ'' ! i
      | None \<Rightarrow> c)"

definition RuneError :: nat where
  "RuneError = 0xFFFD"

text \<open>
  \<open>utf8.DecodeRuneInString\<close>: the rune at the head of the string and its width. The
  first byte fixes the size of the sequence and the range accepted for the second
  byte (the table \<open>first\<close> with \<open>acceptRanges\<close>); the later bytes are continuation bytes.
\<close>

definition DecodeRune :: "string \<Rightarrow> nat \<times> nat" where
  "DecodeRune s =
     (case map of_char s of
        [] \<Rightarrow> (RuneError, 0)
      | p0 # rest \<Rightarrow>
         if p0 < 0x80 then (p0, 1)
         else if p0 < 0xC2 \<or> 0xF4 < p0 then (RuneError, 1)
         else
          (let sz = (if p0 < 0xE0 then 2 else if p0 < 0xF0 then 3 else 4 :: nat);
               lo = (if p0 = 0xE0 then 0xA0 else if p0 = 0xF0 then 0x90 else 0x80 :: nat);
               hi = (if p0 = 0xED then 0x9F else if p0 = 0xF4 then 0x8F else 0xBF :: nat)
           in if length s < sz then (RuneError, 1)
              else
               (let b1 = rest ! 0
                in if b1 < lo \<or> hi < b1 then (RuneError, 1)
                   else if sz \<le> 2 then ((p0 mod 32) * 64 + b1 mod 64, 2)
                   else
                    (let b2 = rest ! 1
                     in if b2 < 0x80 \<or> 0xBF < b2 then (RuneError, 1)
                        else if sz \<le> 3
                        then ((p0 mod 16) * 4096 + (b1 mod 64) * 64 + b2 mod 64, 3)
                        else
                         (let b3 = rest ! 2
                          in if b3 < 0x80 \<or> 0xBF < b3 then (RuneError, 1)
                             else ((p0 mod 8) * 262144 + (b1 mod 64) * 4096 +
                                   (b2 mod 64) * 64 + b3 mod 64, 4))))))"

text \<open>
  \<open>utf8.AppendRune\<close>, which \<open>WriteRune\<close> calls: one to four bytes; a surrogate or a value
  above \<open>utf8.MaxRune\<close> is written as \<open>RuneError\<close>.
\<close>

definition EncodeRune :: "nat \<Rightarrow> string" where
  "EncodeRune r =
     map char_of
       (if r \<le> 0x7F then [r]
        else if r \<le> 0x7FF then [0xC0 + r div 64, 0x80 + r mod 64]
        else if 0x10FFFF < r \<or> (0xD800 \<le> r \<and> r \<le> 0xDFFF) then [0xEF, 0xBF, 0xBD]
        else if r \<le> 0xFFFF
        then [0xE0 + r div 4096, 0x80 + (r div 64) mod 64, 0x80 + r mod 64]
        else [0xF0 + r div 262144, 0x80 + (r div 4096) mod 64, 0x80 + (r div 64) mod 64,
              0x80 + r mod 64])"

text \<open>
  \<open>unicode.ToUpper\<close>: up to \<open>unicode.MaxASCII\<close> it is computed, above it is read from the
  case tables of the Unicode standard, which are a parameter here (\<open>table\<close>, from runes
  to runes).
\<close>

definition ToUpperRune :: "(nat \<Rightarrow> nat) \<Rightarrow> nat \<Rightarrow> nat" where
  "ToUpperRune table r =
     (if r \<le> 0x7F then (if 97 \<le> r \<and> r \<le> 122 then r - 32 else r) else table r)"

text \<open>
  \<open>strings.Map\<close> with a mapping that returns no negative value. \<open>skip\<close> counts the bytes
  of the current rune that are still to be passed over.
\<close>

fun Map_runes :: "(nat \<Rightarrow> nat) \<Rightarrow> nat \<Rightarrow> string \<Rightarrow> string" where
  "Map_runes mapping skip [] = []"
| "Map_runes mapping skip (c # cs) =
     (if 0 < skip then Map_runes mapping (skip - 1) cs
      else (case DecodeRune (c # cs) of
              (r, width) \<Rightarrow> EncodeRune (mapping r) @ Map_runes mapping (width - 1) cs))"

definition ToUpper :: "(nat \<Rightarrow> nat) \<Rightarrow> string \<Rightarrow> string" where
  "ToUpper table s =
     (if is_ascii s then map upper_byte s else Map_runes (ToUpperRune table) 0 s)"

text \<open>
  \<open>encoding/base32\<close>, \<open>StdEncoding\<close>: the RFC 4648 alphabet with padding \<open>'='\<close>.
  \<open>decodeMap\<close> is 0xFF on every byte outside the alphabet.
\<close>

definition encodeStd :: string where
  "encodeStd = ''ABCDEFGHIJKLMNOPQRSTUVWXYZ234567''"

definition decodeMap :: "char \<Rightarrow> byte" where
  "decodeMap c = (case index_of c encodeStd of Some i \<Rightarrow> of_nat i | None \<Rightarrow> 0xFF)"

definition stripNewlines :: "string \<Rightarrow> string" where
  "stripNewlines s = filter (\<lambda>c. c \<noteq> CHR 0x0D \<and> c \<noteq> CHR 0x0A) s"

text \<open>
  Packing one quantum: \<open>dbuf\<close> holds the \<open>dlen\<close> five-bit values read (the Go array has
  eight zero-initialised cells); the \<open>switch dlen\<close> with its fall-through cases
  8, 7, 5, 4, 2 writes 5, 4, 3, 2 or 1 bytes. The shifts are on \<open>uint8\<close>.
\<close>

definition pack :: "byte list \<Rightarrow> byte list" where
  "pack dbuf =
     (let n = length dbuf;
          d = (\<lambda>i. (dbuf @ replicate 8 0) ! i)
      in (if n \<in> {8, 7, 5, 4, 2} then [push_bit 3 (d 0) OR drop_bit 2 (d 1)] else []) @
         (if n \<in> {8, 7, 5, 4} then [push_bit 6 (d 1) OR push_bit 1 (d 2) OR drop_bit 4 (d 3)] else []) @
         (if n \<in> {8, 7, 5} then [push_bit 4 (d 3) OR drop_bit 1 (d 4)] else []) @
         (if n \<in> {8, 7} then [push_bit 7 (d 4) OR push_bit 2 (d 5) OR drop_bit 3 (d 6)] else []) @
         (if n = 8 then [push_bit 5 (d 6) OR d 7] else []))"

text \<open>
  \<open>Encoding.decode\<close>: the outer loop over quanta and the inner loop over the eight
  characters of a quantum, as one recursion over the input. \<open>j\<close> is the inner loop's
  counter and \<open>dbuf\<close> the values read so far in the current quantum. Running out of
  input inside a quantum is an error (padding is required); a pad character is
  accepted from the third position on, when fewer than eight characters follow, if
  the rest of the quantum is padding too; \<open>dlen\<close> 3 and 6 are refused. After a padded
  quantum decoding ends.
\<close>

fun decode :: "nat \<Rightarrow> byte list \<Rightarrow> string \<Rightarrow> error + byte list" where
  "decode j dbuf [] = (if j = 0 then Inr [] else Inl CorruptInput)"
| "decode j dbuf (c # src) =
     (if c = CHR ''='' \<and> 2 \<le> j \<and> length src < 8 then
        (if length src + j < 8 - 1 then Inl CorruptInput
         else if list_ex (\<lambda>c. c \<noteq> CHR ''='') (take (8 - 1 - j) src) then Inl CorruptInput
         else if j = 1 \<or> j = 3 \<or> j = 6 then Inl CorruptInput
         else Inr (pack dbuf))
      else if decodeMap c = 0xFF then Inl CorruptInput
      else if j = 7 then
        (case decode 0 [] src of
           Inl e \<Rightarrow> Inl e
         | Inr bs \<Rightarrow> Inr (pack (dbuf @ [decodeMap c]) @ bs))
      else decode (Suc j) (dbuf @ [decodeMap c]) src)"

definition DecodeString :: "string \<Rightarrow> error + byte list" where
  "DecodeString s = decode 0 [] (stripNewlines s)"

text \<open>
  \<open>github.com/sigurn/crc16\<close> with the parameters \<open>CRC16_XMODEM\<close>: polynomial 0x1021,
  initial value 0, no reflection, no final xor. \<open>MakeTable\<close> fills entry \<open>n\<close> with
  the eight shift-and-xor steps of its inner loop from \<open>n << 8\<close>; \<open>Update\<close> folds
  \<open>crc = crc<<8 ^ table[byte(crc>>8) ^ d]\<close> over the data.
\<close>

definition crc_step :: "16 word \<Rightarrow> 16 word" where
  "crc_step crc =
     (if crc AND 0x8000 \<noteq> 0 then push_bit 1 crc XOR 0x1021 else push_bit 1 crc)"

definition table_entry :: "byte \<Rightarrow> 16 word" where
  "table_entry n =
     crc_step (crc_step (crc_step (crc_step (crc_step (crc_step (crc_step (crc_step
       (push_bit 8 (ucast n)))))))))"

definition Update :: "16 word \<Rightarrow> byte list \<Rightarrow> 16 word" where
  "Update crc data =
     foldl (\<lambda>crc d. push_bit 8 crc XOR table_entry (ucast (drop_bit 8 crc) XOR d)) crc data"

definition Checksum :: "byte list \<Rightarrow> 16 word" where
  "Checksum data = Update 0 data"

text \<open>\<open>binary.BigEndian.Uint16\<close> reads \<open>b[0]\<close> and \<open>b[1]\<close>; a shorter slice panics.\<close>

fun Uint16 :: "byte list \<Rightarrow> 16 word option" where
  "Uint16 (b0 # b1 # _) = Some (push_bit 8 (ucast b0) OR ucast b1)"
| "Uint16 _ = None"

subsection \<open>The address codec\<close>

text \<open>
  \<open>parseADNLAddress\<close>. \<open>buf[0]\<close> panics on an empty buffer and \<open>buf[33:]\<close> on a buffer
  shorter than 33 bytes; \<open>buf[:33]\<close> and \<open>buf[:32]\<close> are bounded by the capacity of the
  buffer that \<open>DecodeString\<close> decoded in place, and are reached only past
  \<open>buf[33:]\<close>. The function returns \<open>buf[:32]\<close>. \<open>table\<close> is the Unicode case table that
  \<open>strings.ToUpper\<close> reads.
\<close>

definition parseADNLAddress :: "(nat \<Rightarrow> nat) \<Rightarrow> string \<Rightarrow> byte list outcome" where
  "parseADNLAddress table addr =
     (if length addr \<noteq> 55 then Fail WrongIdLength
      else (case DecodeString (''F'' @ ToUpper table addr) of
        Inl e \<Rightarrow> Fail (DecodeAddress e)
      | Inr buf \<Rightarrow>
         (case buf of
            [] \<Rightarrow> Panic
          | b0 # _ \<Rightarrow>
             if b0 \<noteq> 0x2d then Fail InvalidFirstByte
             else if length buf < 33 then Panic
             else (case Uint16 (drop 33 buf) of
               None \<Rightarrow> Panic
             | Some hash \<Rightarrow>
                 (let calc = Checksum (take 33 buf)
                  in if hash \<noteq> calc then Fail InvalidAddress
                     else Return (take 32 buf))))))"

text \<open>
  The reference implementation quoted below the Go function (\<open>adnl_id_decode\<close>) copies
  \<open>decoded.substr(1, 32)\<close>: the 32 bytes after the tag byte.
\<close>

definition key_after_tag :: "byte list \<Rightarrow> byte list" where
  "key_after_tag buf = take 32 (drop 1 buf)"

definition sample_address :: string where
  "sample_address = ''uaqeayeaudaocajbifqydiob4ibceqtcqkrmfyydenbwha5dypsapkh''"

definition sample_buffer :: "byte list" where
  "sample_buffer = [0x2d, 1, 2, 3, 4, 5, 6, 7, 8, 9, 10, 11, 12, 13, 14, 15, 16, 17,
     18, 19, 20, 21, 22, 23, 24, 25, 26, 27, 28, 29, 30, 31, 32, 0x3d, 0x47]"

text \<open>
  Two addresses with the letter U+0131 (dotless i, the bytes C4 B1), whose upper case
  in Unicode is the ASCII letter I. The first is the sample address with its first
  \<open>i\<close> replaced: 55 characters in 56 bytes. The second has 55 bytes: four characters, four
  pad characters and 47 line feeds, which \<open>DecodeString\<close> strips. \<open>dotless_table\<close> is a
  case table with the entry of U+0131; the two addresses have no other rune above
  ASCII.
\<close>

definition dotless_table :: "nat \<Rightarrow> nat" where
  "dotless_table r = (if r = 0x131 then 0x49 else r)"

definition dotless_address :: string where
  "dotless_address =
     ''uaqeayeaudaocajb'' @ [CHR 0xC4, CHR 0xB1] @ ''fqydiob4ibceqtcqkrmfyydenbwha5dypsapkh''"

definition padded_address :: string where
  "padded_address = ''ua'' @ [CHR 0xC4, CHR 0xB1] @ ''===='' @ replicate 47 (CHR 0x0A)"

subsection \<open>Protocol messages and the transport's state\<close>

text \<open>
  Modelled from the spec: the message types \<open>Header\<close>, \<open>Request\<close>, \<open>Response\<close>,
  \<open>PayloadPart\<close> and \<open>GetNextPayloadPart\<close> are declared in a file of the package that is
  not among the sources. The records have the fields that client.go reads and writes
  (the spec's RequestMessage, ResponseMessage, PayloadPart and PullRequest), with the
  types its expressions force: \<open>Seqno\<close> is assigned an \<open>int32\<close> variable, and
  \<open>req.Seqno * req.MaxChunkSize\<close> needs both operands of one type, so both are
  \<open>int32\<close>.
\<close>

record Header =
  Name :: string
  Value :: string

record Request =
  ID :: "byte list"
  Method :: string
  URL :: string
  Version :: string
  Headers :: "Header list"

record Response =
  StatusCode :: "32 word"
  Reason :: string
  Headers :: "Header list"
  NoPayload :: bool

record PayloadPart =
  Data :: "byte list"
  Trailer :: "Header list"
  IsLast :: bool

record GetNextPayloadPart =
  ID :: "byte list"
  Seqno :: "32 word"
  MaxChunkSize :: "32 word"

text \<open>\<open>payloadStream\<close>; \<open>StartTime\<close> is a reading of the clock.\<close>

record payloadStream =
  Data :: "byte list"
  StartTime :: nat

text \<open>
  A session (\<open>*rldp.RLDP\<close>) is described by what \<open>connectRLDP\<close> built it from: the peer's
  key, the endpoint and the identifier. A nil pointer is \<open>None\<close>.
\<close>

record RLDP =
  rl_key :: "byte list"
  rl_addr :: string
  rl_id :: string

text \<open>
  The collaborators (name resolution, directory, link layer, random source, clock and
  the peer answering queries) are functions of the calls made so far, so that any
  sequence of answers is some world. The world also has the Unicode case table that
  \<open>strings.ToUpper\<close> reads, and says whether the runtime gets the memory for an
  allocation of a given size. \<open>calls\<close> is a log of the collaborator calls in
  order; the code has no such field, the log only serves to state which calls a run
  makes. A query is logged with the table of staged bodies that the peer can pull from
  while the query is in flight.
\<close>

datatype query = QueryRequest Request | QueryPart GetNextPayloadPart

datatype event =
    CallResolve string
  | CallFindAddresses "byte list"
  | CallNewADNL "byte list"
  | CallConnect string
  | CallRandRead
  | CallReadAll
  | CallNow
  | CallDoQuery RLDP query "string \<rightharpoonup> payloadStream"

record Transport =
  rldpClients :: "string \<rightharpoonup> RLDP"
  activeRequests :: "string \<rightharpoonup> payloadStream"
  calls :: "event list"

record Domain =
  SiteRecord :: "byte list"

record UDP =
  IP :: string
  Port :: int

record World =
  Resolve :: "event list \<Rightarrow> string \<Rightarrow> string + Domain option"
  FindAddresses :: "event list \<Rightarrow> byte list \<Rightarrow> string + (UDP list option \<times> byte list)"
  NewADNL :: "event list \<Rightarrow> byte list \<Rightarrow> string option"
  Connect :: "event list \<Rightarrow> byte list \<Rightarrow> string \<Rightarrow> string option"
  RandRead :: "event list \<Rightarrow> string + (nat \<Rightarrow> byte)"
  Now :: "event list \<Rightarrow> nat"
  DoQueryRequest ::
    "event list \<Rightarrow> (string \<rightharpoonup> payloadStream) \<Rightarrow> RLDP \<Rightarrow> Request \<Rightarrow> string + Response"
  DoQueryPart ::
    "event list \<Rightarrow> (string \<rightharpoonup> payloadStream) \<Rightarrow> RLDP \<Rightarrow> GetNextPayloadPart
      \<Rightarrow> string + PayloadPart"
  CaseTable :: "nat \<Rightarrow> nat"
  CanAllocate :: "event list \<Rightarrow> int \<Rightarrow> bool"

definition log :: "event \<Rightarrow> Transport \<Rightarrow> Transport" where
  "log e t = t\<lparr>calls := calls t @ [e]\<rparr>"

text \<open>
  \<open>http.Request\<close> and \<open>http.Response\<close> of the standard library. \<open>URL\<close> is the text
  \<open>request.URL.String()\<close>. \<open>Header\<close> is a Go map; the list gives its entries in the
  order in which \<open>range\<close> visits them in this run, and \<open>map_of\<close> is the lookup. \<open>Body\<close>
  is \<open>None\<close> for a nil body, and otherwise what \<open>io.ReadAll\<close> gets from it: the bytes or
  an error.
\<close>

record http_Request =
  Host :: string
  Method :: string
  URL :: string
  Header :: "(string \<times> string list) list"
  ContentLength :: int
  Body :: "(string + byte list) option"

record http_Response =
  Status :: string
  StatusCode :: int
  Proto :: string
  ProtoMajor :: int
  ProtoMinor :: int
  Header :: "string \<rightharpoonup> string list"
  ContentLength :: int
  Trailer :: "string \<rightharpoonup> string list"
  Request :: http_Request
  Body :: "byte list"

subsection \<open>Library functions used by the dispatch\<close>

text \<open>\<open>hex.EncodeToString\<close>: two lower-case digits per byte.\<close>

definition hextable :: string where
  "hextable = ''0123456789abcdef''"

definition EncodeToString :: "byte list \<Rightarrow> string" where
  "EncodeToString src =
     concat (map (\<lambda>v. [hextable ! unat (drop_bit 4 v), hextable ! unat (v AND 0x0f)]) src)"

text \<open>\<open>fmt.Sprint\<close> and the verb \<open>%d\<close> on an integer: its decimal digits, with a sign.\<close>

fun decimal :: "nat \<Rightarrow> string" where
  "decimal n =
     (if n < 10 then [''0123456789'' ! n]
      else decimal (n div 10) @ [''0123456789'' ! (n mod 10)])"

definition Sprint :: "int \<Rightarrow> string" where
  "Sprint i = (if i < 0 then ''-'' @ decimal (nat (- i)) else decimal (nat i))"

text \<open>
  \<open>strconv.ParseUint(s, 10, 64)\<close> reads digit by digit: a byte that is no decimal digit
  is a syntax error, a value that leaves 64 bits a range error, whichever comes first.
  \<open>strconv.ParseInt(s, 10, 64)\<close> takes one leading sign off and checks the 63-bit range.
\<close>

fun ParseUint_loop :: "nat \<Rightarrow> string \<Rightarrow> error + nat" where
  "ParseUint_loop n [] = Inr n"
| "ParseUint_loop n (c # cs) =
     (case index_of c ''0123456789'' of
        None \<Rightarrow> Inl SyntaxError
      | Some d \<Rightarrow>
          if (2 ^ 64 - 1) div 10 + 1 \<le> n then Inl RangeError
          else if 2 ^ 64 - 1 < n * 10 + d then Inl RangeError
          else ParseUint_loop (n * 10 + d) cs)"

definition ParseUint :: "string \<Rightarrow> error + nat" where
  "ParseUint s = (if s = [] then Inl SyntaxError else ParseUint_loop 0 s)"

definition ParseInt :: "string \<Rightarrow> error + int" where
  "ParseInt s =
     (case s of
        [] \<Rightarrow> Inl SyntaxError
      | c # cs \<Rightarrow>
          (let neg = (c = CHR ''-'');
               s1 = (if c = CHR ''+'' \<or> c = CHR ''-'' then cs else s)
           in case ParseUint s1 of
                Inl e \<Rightarrow> Inl e
              | Inr un \<Rightarrow>
                  if \<not> neg \<and> 2 ^ 63 \<le> un then Inl RangeError
                  else if neg \<and> 2 ^ 63 < un then Inl RangeError
                  else Inr (if neg then - int un else int un)))"

definition HasSuffix :: "string \<Rightarrow> string \<Rightarrow> bool" where
  "HasSuffix s suffix =
     (length suffix \<le> length s \<and> drop (length s - length suffix) s = suffix)"

subsection \<open>The serving side of the payload stream\<close>

text \<open>
  The handler that \<open>getRLDPQueryHandler\<close> returns, applied to a query. \<open>QOther\<close> stands
  for query data of any other type. The handler either returns an error before
  answering (\<open>Rejected\<close>), or calls \<open>SendAnswer\<close> with a part and returns nil (\<open>Sent\<close>) or
  the wrapped send error (\<open>SendFailed\<close>), or panics: the slice expression
  \<open>stream.Data[offset:till]\<close> needs \<open>0 \<le> offset \<le> till\<close> (\<open>till\<close> never exceeds the length).
  The product \<open>req.Seqno * req.MaxChunkSize\<close> is computed in \<open>int32\<close> and then widened.
\<close>

datatype query_data = QGetNextPayloadPart GetNextPayloadPart | QOther

record Query =
  QueryID :: "byte list"
  MaxAnswerSize :: int
  QueryData :: query_data

datatype handled =
    Rejected error
  | Sent PayloadPart
  | SendFailed PayloadPart error
  | HandlerPanic

definition getRLDPQueryHandler ::
  "(int \<Rightarrow> byte list \<Rightarrow> PayloadPart \<Rightarrow> string option) \<Rightarrow> (string \<rightharpoonup> payloadStream)
     \<Rightarrow> Query \<Rightarrow> handled" where
  "getRLDPQueryHandler SendAnswer active query =
     (case QueryData query of
        QOther \<Rightarrow> Rejected UnexpectedQueryType
      | QGetNextPayloadPart req \<Rightarrow>
         (case active (EncodeToString (GetNextPayloadPart.ID req)) of
            None \<Rightarrow> Rejected UnknownRequestId
          | Some stream \<Rightarrow>
             (let offset = sint (Seqno req * MaxChunkSize req);
                  len = int (length (payloadStream.Data stream))
              in if len \<le> offset then Rejected (TooBigOffset offset)
                 else
                  (let till = (if offset + sint (MaxChunkSize req) < len
                               then offset + sint (MaxChunkSize req) else len)
                   in if offset < 0 \<or> till < offset then HandlerPanic
                      else
                       (let part = \<lparr>PayloadPart.Data =
                                      take (nat (till - offset))
                                        (drop (nat offset) (payloadStream.Data stream)),
                                    Trailer = [],
                                    IsLast = (till = len)\<rparr>
                        in case SendAnswer (MaxAnswerSize query) (QueryID query) part of
                             None \<Rightarrow> Sent part
                           | Some e \<Rightarrow> SendFailed part (SendAnswerFailed (External e)))))))"

subsection \<open>Session establishment\<close>

text \<open>
  \<open>connectRLDP\<close>: \<open>adnl.NewADNL\<close>, then \<open>Connect\<close>, then the new session is stored in the
  cache under its identifier (\<open>ident\<close> for the parameter \<open>id\<close>). (The handlers it installs act on later events of the link layer.)
\<close>

definition connectRLDP ::
  "World \<Rightarrow> Transport \<Rightarrow> byte list \<Rightarrow> string \<Rightarrow> string \<Rightarrow> (error + RLDP) \<times> Transport" where
  "connectRLDP w t key addr ident =
     (let t1 = log (CallNewADNL key) t
      in case NewADNL w (calls t) key of
           Some e \<Rightarrow> (Inl (InitAdnl addr (External e)), t1)
         | None \<Rightarrow>
            (let t2 = log (CallConnect addr) t1
             in case Connect w (calls t1) key addr of
                  Some e \<Rightarrow> (Inl (ConnectAdnl addr (External e)), t2)
                | None \<Rightarrow>
                   (let r = \<lparr>rl_key = key, rl_addr = addr, rl_id = ident\<rparr>
                    in (Inr r, t2\<lparr>rldpClients := (rldpClients t2)(ident \<mapsto> r)\<rparr>))))"

text \<open>
  The resolver loop of \<open>RoundTrip\<close>: up to three attempts; it carries the last values
  of \<open>domain\<close> and \<open>err\<close>. (The 50 ms sleep between attempts has no effect on the state.)
\<close>

fun resolve_loop ::
  "World \<Rightarrow> nat \<Rightarrow> string \<Rightarrow> Domain option \<times> error option \<Rightarrow> Transport
     \<Rightarrow> (Domain option \<times> error option) \<times> Transport" where
  "resolve_loop w 0 host st t = (st, t)"
| "resolve_loop w (Suc n) host st t =
     (case Resolve w (calls t) host of
        Inl e \<Rightarrow> resolve_loop w n host (None, Some (External e)) (log (CallResolve host) t)
      | Inr domain \<Rightarrow> ((domain, None), log (CallResolve host) t))"

text \<open>
  The directory key of the host (the first half of the cache-miss branch): the literal
  address before the suffix \<open>.adnl\<close>, or the site record of the resolved domain.
  \<open>GetSiteRecord\<close> on a nil domain dereferences it.
\<close>

definition find_adnlID :: "World \<Rightarrow> Transport \<Rightarrow> string \<Rightarrow> byte list outcome \<times> Transport" where
  "find_adnlID w t host =
     (if HasSuffix host ''.adnl'' then
        (case parseADNLAddress (CaseTable w) (take (length host - 5) host) of
           Return adnlID \<Rightarrow> (Return adnlID, t)
         | Fail e \<Rightarrow> (Fail (ParseAddress host e), t)
         | Panic \<Rightarrow> (Panic, t)
         | Abort \<Rightarrow> (Abort, t))
      else
        (case resolve_loop w (Suc (Suc (Suc 0))) host (None, None) t of
           ((domain, Some e), t1) \<Rightarrow> (Fail (ResolveHost host e), t1)
         | ((None, None), t1) \<Rightarrow> (Panic, t1)
         | ((Some d, None), t1) \<Rightarrow> (Return (SiteRecord d), t1)))"

text \<open>
  The loop over the endpoints of the directory's answer. It carries \<open>rl\<close>, \<open>err\<close> and
  \<open>triedAddresses\<close>; a successful connection ends it.
\<close>

fun connect_loop ::
  "World \<Rightarrow> byte list \<Rightarrow> string \<Rightarrow> UDP list \<Rightarrow> RLDP option \<times> error option \<times> string list
     \<Rightarrow> Transport \<Rightarrow> (RLDP option \<times> error option \<times> string list) \<times> Transport" where
  "connect_loop w pubKey host [] st t = (st, t)"
| "connect_loop w pubKey host (v # vs) (rl, err, triedAddresses) t =
     (let addr = IP v @ '':'' @ Sprint (Port v)
      in case connectRLDP w t pubKey addr host of
           (Inr r, t1) \<Rightarrow> ((Some r, None, triedAddresses), t1)
         | (Inl e, t1) \<Rightarrow>
             connect_loop w pubKey host vs (None, Some e, triedAddresses @ [addr]) t1)"

text \<open>
  The session for the request: the cached one, or the outcome of the cache-miss
  branch. When that branch ends without an error, \<open>rl\<close> is whatever the endpoint loop
  left in it.
\<close>

definition acquire ::
  "World \<Rightarrow> Transport \<Rightarrow> http_Request \<Rightarrow> RLDP option outcome \<times> Transport" where
  "acquire w t request =
     (case rldpClients t (Host request) of
        Some rl \<Rightarrow> (Return (Some rl), t)
      | None \<Rightarrow>
         (case find_adnlID w t (Host request) of
            (Fail e, t1) \<Rightarrow> (Fail e, t1)
          | (Panic, t1) \<Rightarrow> (Panic, t1)
          | (Abort, t1) \<Rightarrow> (Abort, t1)
          | (Return adnlID, t1) \<Rightarrow>
             (let t2 = log (CallFindAddresses adnlID) t1
              in case FindAddresses w (calls t1) adnlID of
                   Inl e \<Rightarrow>
                     (Fail (FindAddress (Host request) (EncodeToString adnlID) (External e)), t2)
                 | Inr (None, pubKey) \<Rightarrow> (Panic, t2)
                 | Inr (Some addresses, pubKey) \<Rightarrow>
                    (case connect_loop w pubKey (Host request) addresses (None, None, []) t2 of
                       ((rl, Some e, triedAddresses), t3) \<Rightarrow>
                         (Fail (ConnectServers triedAddresses (Host request) e), t3)
                     | ((rl, None, triedAddresses), t3) \<Rightarrow> (Return rl, t3)))))"

subsection \<open>Building the request message and staging the body\<close>

text \<open>
  The identifier is a 32-byte buffer filled by \<open>rand.Read\<close>. The header list starts with
  \<open>Host\<close>, has \<open>Content-Length\<close> when the declared length is positive, and then one entry
  per value of every inbound header. A non-nil body is read whole and stored in
  \<open>activeRequests\<close> under the identifier in hexadecimal.
\<close>

definition build_headers :: "http_Request \<Rightarrow> Header list" where
  "build_headers request =
     [\<lparr>Name = ''Host'', Value = Host request\<rparr>] @
     (if 0 < http_Request.ContentLength request
      then [\<lparr>Name = ''Content-Length'', Value = Sprint (http_Request.ContentLength request)\<rparr>]
      else []) @
     concat (map (\<lambda>(k, v). map (\<lambda>hdr. \<lparr>Name = k, Value = hdr\<rparr>) v) (http_Request.Header request))"

definition stage ::
  "World \<Rightarrow> Transport \<Rightarrow> http_Request \<Rightarrow> (byte list \<times> Request) outcome \<times> Transport" where
  "stage w t request =
     (let t1 = log CallRandRead t
      in case RandRead w (calls t) of
           Inl e \<Rightarrow> (Fail (External e), t1)
         | Inr random \<Rightarrow>
            (let qid = map random [0 ..< 32];
                 req = \<lparr>Request.ID = qid,
                        Method = http_Request.Method request,
                        URL = http_Request.URL request,
                        Version = ''HTTP/1.1'',
                        Headers = build_headers request\<rparr>
             in case http_Request.Body request of
                  None \<Rightarrow> (Return (qid, req), t1)
                | Some (Inl e) \<Rightarrow> (Fail (ReadBody (External e)), log CallReadAll t1)
                | Some (Inr data) \<Rightarrow>
                   (let t2 = log CallReadAll t1;
                        t3 = log CallNow t2
                    in (Return (qid, req),
                        t3\<lparr>activeRequests := (activeRequests t3)(EncodeToString qid \<mapsto>
                             \<lparr>payloadStream.Data = data, StartTime = Now w (calls t2)\<rparr>)\<rparr>))))"

subsection \<open>The exchange and the pulling side of the payload stream\<close>

definition ChunkSize :: "32 word" where
  "ChunkSize = push_bit 17 1"

text \<open>
  \<open>make([]byte, 0, n)\<close> panics when \<open>n\<close> exceeds the largest allocation of the runtime,
  \<open>1 << 48\<close> bytes on 64-bit Linux. Below that the runtime asks the machine for the
  memory, and ends the process with a fatal error when it does not get it.
\<close>

definition maxAlloc :: int where
  "maxAlloc = 2 ^ 48"

definition set_headers :: "Header list \<Rightarrow> (string \<rightharpoonup> string list) \<Rightarrow> (string \<rightharpoonup> string list)" where
  "set_headers hs m = fold (\<lambda>h m. m(Name h \<mapsto> [Value h])) hs m"

text \<open>
  The loop \<open>for !res.NoPayload\<close>. It ends when a part is the last one or a query fails,
  and runs forever against a peer that never sends a last part: the result is \<open>None\<close>
  then. \<open>seqno\<close> is an \<open>int32\<close> and wraps.
\<close>

partial_function (option) pull_loop ::
  "World \<Rightarrow> RLDP \<Rightarrow> byte list \<Rightarrow> 32 word \<Rightarrow> bool \<Rightarrow> byte list \<Rightarrow> (string \<rightharpoonup> string list)
     \<Rightarrow> Transport \<Rightarrow> ((byte list \<times> (string \<rightharpoonup> string list)) outcome \<times> Transport) option" where
  "pull_loop w rl qid seqno noPayload buf trailer t =
     (if noPayload then Some (Return (buf, trailer), t)
      else
        (let q = \<lparr>GetNextPayloadPart.ID = qid, Seqno = seqno, MaxChunkSize = ChunkSize\<rparr>;
             t1 = log (CallDoQuery rl (QueryPart q) (activeRequests t)) t
         in case DoQueryPart w (calls t) (activeRequests t) rl q of
              Inl e \<Rightarrow> Some (Fail (QueryPartFailed seqno (External e)), t1)
            | Inr part \<Rightarrow>
                pull_loop w rl qid (seqno + 1) (IsLast part) (buf @ PayloadPart.Data part)
                  (set_headers (PayloadPart.Trailer part) trailer) t1))"

declare pull_loop.simps [code]

text \<open>
  The content length of the response: \<open>-1\<close>, or the first value of the inbound
  request's \<open>Content-Length\<close> header when the header map has the key with a value.
\<close>

definition response_length :: "http_Request \<Rightarrow> error + int" where
  "response_length request =
     (case map_of (http_Request.Header request) ''Content-Length'' of
        Some (ln0 # _) \<Rightarrow>
          (case ParseInt ln0 of
             Inl e \<Rightarrow> Inl (ParseContentLength e)
           | Inr n \<Rightarrow> Inr n)
      | _ \<Rightarrow> Inr (- 1))"

text \<open>
  From the first query to the end of \<open>RoundTrip\<close>. \<open>rl.DoQuery\<close> on a nil session
  dereferences a nil pointer. The staged body is deleted after a successful first
  query; the error return before it leaves the table as it is.
\<close>

definition exchange ::
  "World \<Rightarrow> Transport \<Rightarrow> RLDP option \<Rightarrow> byte list \<Rightarrow> Request \<Rightarrow> http_Request
     \<Rightarrow> (http_Response outcome \<times> Transport) option" where
  "exchange w t rl qid req request =
     (case rl of
        None \<Rightarrow> Some (Panic, t)
      | Some r \<Rightarrow>
         (let t1 = log (CallDoQuery r (QueryRequest req) (activeRequests t)) t
          in case DoQueryRequest w (calls t) (activeRequests t) r req of
               Inl e \<Rightarrow> Some (Fail (QueryHttp (External e)), t1)
             | Inr res \<Rightarrow>
                (let t2 = t1\<lparr>activeRequests := (activeRequests t1)(EncodeToString qid := None)\<rparr>;
                     httpResp = \<lparr>Status = Reason res,
                                 StatusCode = sint (Response.StatusCode res),
                                 Proto = ''HTTP/1.1'',
                                 ProtoMajor = 1,
                                 ProtoMinor = 1,
                                 Header = set_headers (Response.Headers res) Map.empty,
                                 ContentLength = - 1,
                                 Trailer = Map.empty,
                                 Request = request,
                                 Body = []\<rparr>
                 in case response_length request of
                      Inl e \<Rightarrow> Some (Fail e, t2)
                    | Inr n \<Rightarrow>
                       if 0 < n then
                         (if maxAlloc < n then Some (Panic, t2)
                          else if \<not> CanAllocate w (calls t2) n then Some (Abort, t2)
                          else
                           (case pull_loop w r qid 0 (NoPayload res) [] Map.empty t2 of
                              None \<Rightarrow> None
                            | Some (Fail e, t3) \<Rightarrow> Some (Fail e, t3)
                            | Some (Panic, t3) \<Rightarrow> Some (Panic, t3)
                            | Some (Abort, t3) \<Rightarrow> Some (Abort, t3)
                            | Some (Return (buf, trailer), t3) \<Rightarrow>
                                Some (Return (httpResp\<lparr>ContentLength := n, Trailer := trailer,
                                                Body := buf\<rparr>), t3)))
                       else Some (Return (httpResp\<lparr>ContentLength := n\<rparr>), t2))))"

subsection \<open>The top-level dispatch\<close>

definition RoundTrip ::
  "World \<Rightarrow> Transport \<Rightarrow> http_Request \<Rightarrow> (http_Response outcome \<times> Transport) option" where
  "RoundTrip w t request =
     (case acquire w t request of
        (Fail e, t1) \<Rightarrow> Some (Fail e, t1)
      | (Panic, t1) \<Rightarrow> Some (Panic, t1)
      | (Abort, t1) \<Rightarrow> Some (Abort, t1)
      | (Return rl, t1) \<Rightarrow>
         (case stage w t1 request of
            (Fail e, t2) \<Rightarrow> Some (Fail e, t2)
          | (Panic, t2) \<Rightarrow> Some (Panic, t2)
          | (Abort, t2) \<Rightarrow> Some (Abort, t2)
          | (Return (qid, req), t2) \<Rightarrow> exchange w t2 rl qid req request))"

subsection \<open>Reading the log of calls\<close>

text \<open>
  The calls that a run added to the log, the calls that look a peer up or connect to
  it, the sessions that queries went through, and the request messages sent.
\<close>

definition new_calls :: "Transport \<Rightarrow> Transport \<Rightarrow> event list" where
  "new_calls t t' = drop (length (calls t)) (calls t')"

fun is_setup_call :: "event \<Rightarrow> bool" where
  "is_setup_call (CallResolve host) = True"
| "is_setup_call (CallFindAddresses key) = True"
| "is_setup_call (CallNewADNL key) = True"
| "is_setup_call (CallConnect addr) = True"
| "is_setup_call e = False"

fun query_sessions :: "event list \<Rightarrow> RLDP list" where
  "query_sessions [] = []"
| "query_sessions (CallDoQuery rl q active # es) = rl # query_sessions es"
| "query_sessions (e # es) = query_sessions es"

fun sent_requests :: "event list \<Rightarrow> Request list" where
  "sent_requests [] = []"
| "sent_requests (CallDoQuery rl (QueryRequest req) active # es) = req # sent_requests es"
| "sent_requests (e # es) = sent_requests es"

subsection \<open>Sample runs\<close>

text \<open>
  A world in which every collaborator succeeds: the resolver returns a domain, the
  directory returns no endpoint for it, the random source delivers the byte 0xAB, the
  peer answers the request with status 200 and one last part of three bytes, and
  every allocation gets its memory.
\<close>

definition sample_part :: PayloadPart where
  "sample_part = \<lparr>PayloadPart.Data = [7, 8, 9], Trailer = [], IsLast = True\<rparr>"

definition sample_response :: Response where
  "sample_response = \<lparr>Response.StatusCode = 200, Reason = ''OK'', Headers = [], NoPayload = False\<rparr>"

definition sample_world :: World where
  "sample_world =
     \<lparr>Resolve = (\<lambda>h host. Inr (Some \<lparr>SiteRecord = [1, 2, 3]\<rparr>)),
      FindAddresses = (\<lambda>h key. Inr (Some [], [4, 5, 6])),
      NewADNL = (\<lambda>h key. None),
      Connect = (\<lambda>h key addr. None),
      RandRead = (\<lambda>h. Inr (\<lambda>i. 0xAB)),
      Now = (\<lambda>h. 0),
      DoQueryRequest = (\<lambda>h active rl req. Inr sample_response),
      DoQueryPart = (\<lambda>h active rl q. Inr sample_part),
      CaseTable = dotless_table,
      CanAllocate = (\<lambda>h n. True)\<rparr>"

text \<open>The same world with a peer that does not answer the request.\<close>

definition failing_world :: World where
  "failing_world = sample_world\<lparr>DoQueryRequest := (\<lambda>h active rl req. Inl ''timeout'')\<rparr>"

definition sample_session :: RLDP where
  "sample_session = \<lparr>rl_key = [4, 5, 6], rl_addr = ''10.0.0.1:3333'', rl_id = ''site.ton''\<rparr>"

definition empty_transport :: Transport where
  "empty_transport = \<lparr>rldpClients = Map.empty, activeRequests = Map.empty, calls = []\<rparr>"

definition connected_transport :: Transport where
  "connected_transport =
     \<lparr>rldpClients = [''site.ton'' \<mapsto> sample_session], activeRequests = Map.empty, calls = []\<rparr>"

text \<open>
  A POST with a three-byte body whose declared content length is 0 and whose header
  map has a \<open>Content-Length\<close> entry, and a GET without a body.
\<close>

definition sample_post :: http_Request where
  "sample_post =
     \<lparr>Host = ''site.ton'', Method = ''POST'', URL = ''http://site.ton/'',
      Header = [(''Content-Length'', [''3''])], ContentLength = 0,
      Body = Some (Inr [1, 2, 3])\<rparr>"

definition sample_get :: http_Request where
  "sample_get =
     \<lparr>Host = ''site.ton'', Method = ''GET'', URL = ''http://site.ton/'',
      Header = [], ContentLength = 0, Body = None\<rparr>"

definition sample_qid :: "byte list" where
  "sample_qid = replicate 32 0xAB"

text \<open>
  What the sample runs produce: the request message built for the POST, the table
  and the state while its query is in flight, the response, and the final states of
  the successful POST, of the failed POST and of the GET over a fresh transport.
\<close>

definition post_request :: Request where
  "post_request =
     \<lparr>Request.ID = sample_qid, Method = ''POST'', URL = ''http://site.ton/'',
      Version = ''HTTP/1.1'',
      Headers = [\<lparr>Name = ''Host'', Value = ''site.ton''\<rparr>,
                 \<lparr>Name = ''Content-Length'', Value = ''3''\<rparr>]\<rparr>"

definition post_staged :: "string \<rightharpoonup> payloadStream" where
  "post_staged =
     [EncodeToString sample_qid \<mapsto> \<lparr>payloadStream.Data = [1, 2, 3], StartTime = 0\<rparr>]"

definition post_staged_state :: Transport where
  "post_staged_state =
     \<lparr>rldpClients = [''site.ton'' \<mapsto> sample_session],
      activeRequests = post_staged,
      calls = [CallRandRead, CallReadAll, CallNow]\<rparr>"

definition post_response :: http_Response where
  "post_response =
     \<lparr>Status = ''OK'', StatusCode = 200, Proto = ''HTTP/1.1'', ProtoMajor = 1, ProtoMinor = 1,
      Header = Map.empty, ContentLength = 3, Trailer = Map.empty, Request = sample_post,
      Body = [7, 8, 9]\<rparr>"

definition post_final :: Transport where
  "post_final =
     \<lparr>rldpClients = [''site.ton'' \<mapsto> sample_session],
      activeRequests = Map.empty,
      calls = [CallRandRead, CallReadAll, CallNow,
               CallDoQuery sample_session (QueryRequest post_request) post_staged,
               CallDoQuery sample_session
                 (QueryPart \<lparr>GetNextPayloadPart.ID = sample_qid, Seqno = 0,
                              MaxChunkSize = ChunkSize\<rparr>) Map.empty]\<rparr>"

definition failed_final :: Transport where
  "failed_final =
     \<lparr>rldpClients = [''site.ton'' \<mapsto> sample_session],
      activeRequests = post_staged,
      calls = [CallRandRead, CallReadAll, CallNow,
               CallDoQuery sample_session (QueryRequest post_request) post_staged]\<rparr>"

definition panic_final :: Transport where
  "panic_final =
     \<lparr>rldpClients = Map.empty,
      activeRequests = Map.empty,
      calls = [CallResolve ''site.ton'', CallFindAddresses [1, 2, 3], CallRandRead]\<rparr>"

definition part_queries :: "RLDP \<Rightarrow> event list \<Rightarrow> bool" where
  "part_queries rl evs = list_all (\<lambda>e. \<exists>q active. e = CallDoQuery rl (QueryPart q) active) evs"

definition pull_frame :: "RLDP \<Rightarrow> Transport \<Rightarrow> Transport \<Rightarrow> bool" where
  "pull_frame rl t t' =
     (rldpClients t' = rldpClients t \<and> activeRequests t' = activeRequests t \<and>
      (\<exists>evs. calls t' = calls t @ evs \<and> part_queries rl evs))"

definition setup_only :: "Transport \<Rightarrow> Transport \<Rightarrow> bool" where
  "setup_only t t' = (\<exists>evs. calls t' = calls t @ evs \<and> list_all is_setup_call evs)"

definition stage_calls :: "event list \<Rightarrow> bool" where
  "stage_calls evs = (set evs \<subseteq> {CallRandRead, CallReadAll, CallNow})"

text \<open>
  A table with one staged body, and a pull request for it answered over a link that
  accepts the answer.
\<close>

definition staged :: "byte list \<Rightarrow> byte list \<Rightarrow> (string \<rightharpoonup> payloadStream)" where
  "staged ident payload =
     [EncodeToString ident \<mapsto> \<lparr>payloadStream.Data = payload, StartTime = 0\<rparr>]"

definition pull :: "(string \<rightharpoonup> payloadStream) \<Rightarrow> byte list \<Rightarrow> 32 word \<Rightarrow> 32 word \<Rightarrow> handled" where
  "pull active ident seqno chunk =
     getRLDPQueryHandler (\<lambda>maxAnswerSize queryID part. None) active
       \<lparr>QueryID = [], MaxAnswerSize = 263168,
        QueryData = QGetNextPayloadPart
          \<lparr>GetNextPayloadPart.ID = ident, Seqno = seqno, MaxChunkSize = chunk\<rparr>\<rparr>"

definition sample_payload :: "byte list" where
  "sample_payload = [0, 1, 2, 3, 4, 5, 6, 7, 8, 9]"

section \<open>The address codec\<close>

lemma upper_byte_idem: "upper_byte (upper_byte c) = upper_byte c"
  by (simp add: upper_byte_def)

lemma upper_byte_ascii: "of_char c < (128 :: nat) \<Longrightarrow> of_char (upper_byte c) < (128 :: nat)"
  by (simp add: upper_byte_def)

lemma is_ascii_upper: "is_ascii s \<Longrightarrow> is_ascii (map upper_byte s)"
  by (induction s) (simp_all add: is_ascii_def upper_byte_ascii)

lemma ToUpper_ascii: "is_ascii s \<Longrightarrow> ToUpper table s = map upper_byte s"
  by (simp add: ToUpper_def)

lemma ToUpper_idem: "is_ascii s \<Longrightarrow> ToUpper table (ToUpper table s) = ToUpper table s"
  by (simp add: ToUpper_ascii is_ascii_upper upper_byte_idem)

lemma length_ToUpper: "is_ascii s \<Longrightarrow> length (ToUpper table s) = length s"
  by (simp add: ToUpper_ascii)

text \<open>
  An address that passes every check: the value returned is the first 32 bytes of the
  decoded buffer.
\<close>

lemma parse_valid:
  assumes "length addr = 55"
    and "DecodeString (''F'' @ ToUpper table addr) = Inr buf"
    and "length buf = 35"
    and "hd buf = 0x2d"
    and "Uint16 (drop 33 buf) = Some (Checksum (take 33 buf))"
  shows "parseADNLAddress table addr = Return (take 32 buf)"
proof (cases buf)
  case Nil
  with assms(3) show ?thesis by simp
next
  case (Cons b0 bs)
  with assms show ?thesis
    by (simp add: parseADNLAddress_def)
qed

text \<open>The sample address: its decoded buffer and the checksum of the first 33 bytes.\<close>

lemmas crc_defs = Update_def table_entry_def crc_step_def

lemma crc_part1: "Update 0 [0x2d, 1, 2, 3, 4, 5, 6, 7, 8] = 0x8f63"
  by (simp add: crc_defs)

lemma crc_part2: "Update 0x8f63 [9, 10, 11, 12, 13, 14, 15, 16, 17] = 0xdf35"
  by (simp add: crc_defs)

lemma crc_part3: "Update 0xdf35 [18, 19, 20, 21, 22, 23, 24, 25, 26] = 0x89c4"
  by (simp add: crc_defs)

lemma crc_part4: "Update 0x89c4 [27, 28, 29, 30, 31, 32] = 0x3d47"
  by (simp add: crc_defs)

lemma Update_append: "Update crc (xs @ ys) = Update (Update crc xs) ys"
  by (simp add: Update_def)

lemma sample_checksum: "Checksum (take 33 sample_buffer) = 0x3d47"
proof -
  have "take 33 sample_buffer =
      [0x2d, 1, 2, 3, 4, 5, 6, 7, 8] @ [9, 10, 11, 12, 13, 14, 15, 16, 17] @
      [18, 19, 20, 21, 22, 23, 24, 25, 26] @ [27, 28, 29, 30, 31, 32]"
    by (simp add: sample_buffer_def)
  then show ?thesis
    by (simp only: Checksum_def Update_append crc_part1 crc_part2 crc_part3 crc_part4)
qed

lemma sample_ascii: "is_ascii sample_address"
  by (simp add: is_ascii_def sample_address_def)

lemma sample_upper:
  "ToUpper table sample_address = ''UAQEAYEAUDAOCAJBIFQYDIOB4IBCEQTCQKRMFYYDENBWHA5DYPSAPKH''"
  unfolding ToUpper_ascii [OF sample_ascii]
  by (simp add: sample_address_def upper_byte_def)

lemma upper_sample_decoded:
  "DecodeString (''F'' @ ''UAQEAYEAUDAOCAJBIFQYDIOB4IBCEQTCQKRMFYYDENBWHA5DYPSAPKH'') =
     Inr sample_buffer"
  by (simp add: DecodeString_def stripNewlines_def sample_buffer_def decodeMap_def
      encodeStd_def pack_def)

lemma sample_decoded:
  "DecodeString (''F'' @ ToUpper table sample_address) = Inr sample_buffer"
  unfolding sample_upper by (rule upper_sample_decoded)

lemma sample_parsed: "parseADNLAddress table sample_address = Return (take 32 sample_buffer)"
proof (rule parse_valid)
  show "length sample_address = 55"
    by (simp add: sample_address_def)
  show "DecodeString (''F'' @ ToUpper table sample_address) = Inr sample_buffer"
    by (rule sample_decoded)
  show "length sample_buffer = 35" "hd sample_buffer = 0x2d"
    by (simp_all add: sample_buffer_def)
  show "Uint16 (drop 33 sample_buffer) = Some (Checksum (take 33 sample_buffer))"
    unfolding sample_checksum by (simp add: sample_buffer_def)
qed

text \<open>
  C1. The claim: an address that passes the length, tag and checksum checks decodes to
  the 32 bytes after the tag byte. On the sample address, whose decoded buffer is the
  tag 0x2d, the key 1, 2, ..., 32 and the checksum 0x3d47, the function returns the tag
  byte followed by the first 31 bytes of the key, and not the key (the address is
  ASCII text, so the case table does not matter).
\<close>

theorem C1_returns_tag_and_31_bytes:
  "DecodeString (''F'' @ ToUpper table sample_address) = Inr sample_buffer \<and>
   parseADNLAddress table sample_address =
     Return (0x2d # take 31 (key_after_tag sample_buffer)) \<and>
   parseADNLAddress table sample_address \<noteq> Return (key_after_tag sample_buffer)"
  unfolding sample_parsed sample_decoded
  by (simp add: sample_buffer_def key_after_tag_def)

text \<open>The two addresses with a dotless i, and their upper-case forms.\<close>

lemmas rune_defs =
  DecodeRune_def ToUpperRune_def EncodeRune_def char_of_def bit_Suc_0_iff Let_def

lemma dotless_upper:
  "ToUpper dotless_table dotless_address =
     ''UAQEAYEAUDAOCAJBIFQYDIOB4IBCEQTCQKRMFYYDENBWHA5DYPSAPKH''"
  by (simp add: ToUpper_def is_ascii_def dotless_address_def dotless_table_def rune_defs)

lemma upper_sample_parsed:
  "parseADNLAddress table ''UAQEAYEAUDAOCAJBIFQYDIOB4IBCEQTCQKRMFYYDENBWHA5DYPSAPKH'' =
     Return (take 32 sample_buffer)"
proof -
  have "parseADNLAddress table (ToUpper table sample_address) = Return (take 32 sample_buffer)"
  proof (rule parse_valid)
    show "length (ToUpper table sample_address) = 55"
      by (simp add: length_ToUpper sample_ascii) (simp add: sample_address_def)
    show "DecodeString (''F'' @ ToUpper table (ToUpper table sample_address)) = Inr sample_buffer"
      by (simp only: ToUpper_idem [OF sample_ascii] sample_decoded)
    show "length sample_buffer = 35" "hd sample_buffer = 0x2d"
      by (simp_all add: sample_buffer_def)
    show "Uint16 (drop 33 sample_buffer) = Some (Checksum (take 33 sample_buffer))"
      unfolding sample_checksum by (simp add: sample_buffer_def)
  qed
  then show ?thesis
    by (simp only: sample_upper)
qed

lemma line_feeds_upper:
  "Map_runes (ToUpperRune table) 0 (replicate n (CHR 0x0A)) = replicate n (CHR 0x0A)"
  by (induction n) (simp_all add: rune_defs)

lemma padded_upper:
  "ToUpper dotless_table padded_address = ''UAI===='' @ replicate 47 (CHR 0x0A)"
  by (simp add: ToUpper_def is_ascii_def padded_address_def dotless_table_def rune_defs
      line_feeds_upper)

lemma padded_decoded:
  "DecodeString (''F'' @ ToUpper dotless_table padded_address) = Inr [0x2d, 0]"
  unfolding padded_upper
  by (simp add: DecodeString_def stripNewlines_def decodeMap_def encodeStd_def pack_def)

text \<open>
  C9. The claim as stated: for every 55-character address, decoding the address and
  decoding its upper-case form give the same result. The length check counts the bytes
  of the address as given, and \<open>strings.ToUpper\<close> can change the number of bytes. The
  sample address with a dotless i has 55 characters in 56 bytes: it is refused for its
  length, and its upper-case form (55 bytes) decodes. The padded address has 55 bytes:
  decoding it panics at \<open>buf[33:]\<close> on a buffer of two bytes, and its upper-case form
  (54 bytes) is refused for its length.
\<close>

theorem C9_not_case_insensitive_counterexample:
  "length dotless_address = 56 \<and>
   length (ToUpper dotless_table dotless_address) = 55 \<and>
   parseADNLAddress dotless_table dotless_address = Fail WrongIdLength \<and>
   parseADNLAddress dotless_table (ToUpper dotless_table dotless_address) =
     Return (take 32 sample_buffer) \<and>
   length padded_address = 55 \<and>
   length (ToUpper dotless_table padded_address) = 54 \<and>
   parseADNLAddress dotless_table padded_address = Panic \<and>
   parseADNLAddress dotless_table (ToUpper dotless_table padded_address) = Fail WrongIdLength"
proof -
  have a: "length dotless_address = 56"
    by (simp add: dotless_address_def)
  have b: "length padded_address = 55"
    by (simp add: padded_address_def)
  have c: "parseADNLAddress dotless_table padded_address = Panic"
    unfolding parseADNLAddress_def padded_decoded by (simp add: b)
  have d: "parseADNLAddress dotless_table (''UAI===='' @ replicate 47 (CHR 0x0A)) =
      Fail WrongIdLength"
    by (simp add: parseADNLAddress_def)
  have e: "parseADNLAddress dotless_table dotless_address = Fail WrongIdLength"
    by (simp add: parseADNLAddress_def a)
  show ?thesis
    unfolding dotless_upper padded_upper upper_sample_parsed
    using a b c d e by simp
qed

text \<open>
  C9, amended. The address codec is case-insensitive on ASCII text: for every address
  of 55 ASCII characters, whatever the case table, decoding the address and decoding
  its upper-case form give the same result.
\<close>

theorem C9_case_insensitive:
  assumes "length s = 55" and "is_ascii s"
  shows "parseADNLAddress table (ToUpper table s) = parseADNLAddress table s"
  using assms by (simp add: parseADNLAddress_def ToUpper_idem length_ToUpper)

text \<open>C9, amended, on the sample address.\<close>

theorem C9_case_insensitive_witness:
  "length sample_address = 55 \<and> is_ascii sample_address \<and>
   parseADNLAddress dotless_table (ToUpper dotless_table sample_address) =
     parseADNLAddress dotless_table sample_address"
proof -
  have len: "length sample_address = 55"
    by (simp add: sample_address_def)
  from len sample_ascii C9_case_insensitive [OF len sample_ascii] show ?thesis
    by simp
qed

section \<open>The serving side of the payload stream\<close>

text \<open>
  The handler on a table that holds the body under the identifier of the pull request.
\<close>

lemma pull_staged:
  "pull (staged ident payload) ident seqno chunk =
     (let offset = sint (seqno * chunk); len = int (length payload)
      in if len \<le> offset then Rejected (TooBigOffset offset)
         else
          (let till = (if offset + sint chunk < len then offset + sint chunk else len)
           in if offset < 0 \<or> till < offset then HandlerPanic
              else Sent \<lparr>PayloadPart.Data = take (nat (till - offset)) (drop (nat offset) payload),
                         Trailer = [], IsLast = (till = len)\<rparr>))"
  by (simp add: pull_def staged_def getRLDPQueryHandler_def Let_def)

text \<open>
  C4. The claim: the handler fails exactly when \<open>seqno * C \<ge> L\<close>, and otherwise answers
  with \<open>payload[seqno*C : min(seqno*C + C, L)]\<close>. For sequence number 32768 and chunk
  size 131072 on a body of 10 bytes the product is \<open>2 ^ 32\<close>, which is not below 10; the
  product of the two \<open>int32\<close> values wraps to 0, and the handler answers with the whole
  body as the last part.
\<close>

theorem C4_offset_wraps:
  "pull (staged [1] sample_payload) [1] 32768 131072 =
     Sent \<lparr>PayloadPart.Data = sample_payload, Trailer = [], IsLast = True\<rparr> \<and>
   int (length sample_payload) \<le> sint (32768 :: 32 word) * sint (131072 :: 32 word)"
  by (simp add: pull_staged sample_payload_def)

text \<open>
  C5. The claim: for every non-empty body of length L and positive chunk size C, the
  pulls 0, ..., ceil(L/C) - 1 are answered with parts that concatenate to the body. For
  a body of \<open>2 ^ 31 + 1\<close> bytes and chunk size 131072 the final pull has sequence number
  16384; the \<open>int32\<close> product wraps to \<open>- 2 ^ 31\<close>, the offset check passes, and the slice
  expression panics.
\<close>

theorem C5_large_payload_panics:
  "pull (staged [1] (replicate 2147483649 0)) [1] 16384 131072 = HandlerPanic \<and>
   (2147483649 + 131072 - 1) div 131072 - 1 = (16384 :: nat)"
  by (simp add: pull_staged)

text \<open>
  Where the product of a non-negative sequence number and a non-negative chunk size
  stays below \<open>2 ^ 31\<close>, the handler does what the pull protocol says.
\<close>

lemma sint_mult_in_range:
  fixes a b :: "32 word"
  assumes "0 \<le> sint a" "0 \<le> sint b" "sint a * sint b < 2 ^ 31"
  shows "sint (a * b) = sint a * sint b"
proof -
  have "0 \<le> sint a * sint b"
    using assms(1,2) by simp
  then have "signed_take_bit 31 (sint a * sint b) = sint a * sint b"
    using assms(3) by (intro signed_take_bit_int_eq_self) simp_all
  then show ?thesis
    by (simp add: sint_word_ariths)
qed

lemma pull_in_range:
  assumes "0 \<le> sint seqno" "0 \<le> sint chunk" "sint seqno * sint chunk < 2 ^ 31"
  shows "pull (staged ident payload) ident seqno chunk =
     (if int (length payload) \<le> sint seqno * sint chunk
      then Rejected (TooBigOffset (sint seqno * sint chunk))
      else Sent \<lparr>PayloadPart.Data =
                   take (nat (sint chunk)) (drop (nat (sint seqno * sint chunk)) payload),
                 Trailer = [],
                 IsLast = (int (length payload) \<le> sint seqno * sint chunk + sint chunk)\<rparr>)"
proof -
  have off: "sint (seqno * chunk) = sint seqno * sint chunk"
    using assms by (rule sint_mult_in_range)
  have nonneg: "0 \<le> sint seqno * sint chunk"
    using assms(1,2) by simp
  show ?thesis
  proof (cases "int (length payload) \<le> sint seqno * sint chunk")
    case True
    then show ?thesis
      by (simp add: pull_staged off)
  next
    case False
    show ?thesis
    proof (cases "sint seqno * sint chunk + sint chunk < int (length payload)")
      case True
      with False nonneg assms(2) show ?thesis
        by (simp add: pull_staged off)
    next
      case inner: False
      have "take (nat (int (length payload) - sint seqno * sint chunk))
              (drop (nat (sint seqno * sint chunk)) payload) =
            take (nat (sint chunk)) (drop (nat (sint seqno * sint chunk)) payload)"
        using inner False nonneg by simp
      with False inner nonneg assms(2) show ?thesis
        by (simp add: pull_staged off)
    qed
  qed
qed

lemma concat_chunks:
  "concat (map (\<lambda>i. take c (drop (i * c) xs)) [0 ..< n]) = take (n * c) xs"
proof (induction n)
  case 0
  show ?case by simp
next
  case (Suc n)
  have "take (Suc n * c) xs = take (n * c + c) xs"
    by (simp add: add.commute)
  also have "\<dots> = take (n * c) xs @ take c (drop (n * c) xs)"
    by (rule take_add)
  finally show ?case
    using Suc by simp
qed

lemma ceil_div_Suc:
  fixes c l :: nat
  assumes "0 < c" "0 < l"
  shows "(l + c - 1) div c = Suc ((l - 1) div c)"
proof -
  have "l + c - 1 = (l - 1) + c"
    using assms(2) by simp
  then have "(l + c - 1) div c = ((l - 1) + c) div c"
    by (rule arg_cong)
  also have "\<dots> = Suc ((l - 1) div c)"
    using assms(1) by (simp add: div_add_self2)
  finally show ?thesis .
qed

lemma ceil_div_bounds:
  fixes c l :: nat
  assumes "0 < c" "0 < l"
  shows "((l + c - 1) div c - 1) * c < l" and "l \<le> ((l + c - 1) div c) * c"
proof -
  define q where "q = (l - 1) div c"
  define r where "r = (l - 1) mod c"
  have split: "l - 1 = q * c + r"
    by (simp add: q_def r_def)
  have small: "r < c"
    using assms(1) by (simp add: r_def)
  have n: "(l + c - 1) div c = Suc q"
    unfolding q_def using assms by (rule ceil_div_Suc)
  have "q * c < l"
    using split assms(2) by arith
  then show "((l + c - 1) div c - 1) * c < l"
    unfolding n by simp
  have "l \<le> q * c + c"
    using split small by arith
  then show "l \<le> ((l + c - 1) div c) * c"
    unfolding n by simp
qed

lemma sint_of_nat_small:
  assumes "i < 2 ^ 31"
  shows "sint (of_nat i :: 32 word) = int i"
proof -
  have "signed_take_bit 31 (int i) = int i"
    using assms by (intro signed_take_bit_int_eq_self) simp_all
  then show ?thesis
    by (simp add: signed_of_nat)
qed

lemma no_last_before: "map (\<lambda>i. i = m) [0 ..< m] = replicate m False"
proof -
  have "map (\<lambda>i. i = m) [0 ..< m] = map (\<lambda>i. False) [0 ..< m]"
    by (rule map_cong) auto
  then show ?thesis
    by (simp add: map_replicate_const)
qed

text \<open>
  For a staged body shorter than \<open>2 ^ 31\<close> bytes and a positive chunk size, the pulls
  0, 1, ..., ceil(L/C) - 1 are all answered, the parts concatenate to the body, and only
  the final one is marked last.
\<close>

lemma pull_sequence_in_range:
  assumes "payload \<noteq> []" and "0 < sint chunk" and "length payload < 2 ^ 31"
  defines "c \<equiv> nat (sint chunk)"
  defines "n \<equiv> (length payload + c - 1) div c"
  defines "parts \<equiv> map (\<lambda>i. \<lparr>PayloadPart.Data = take c (drop (i * c) payload),
                                 Trailer = [], IsLast = (i = n - 1)\<rparr>) [0 ..< n]"
  shows "map (\<lambda>i. pull (staged ident payload) ident (of_nat i) chunk) [0 ..< n] = map Sent parts"
    and "concat (map PayloadPart.Data parts) = payload"
    and "map IsLast parts = replicate (n - 1) False @ [True]"
proof -
  have c_pos: "0 < c"
    using assms(2) by (simp add: c_def)
  have sc: "sint chunk = int c"
    using assms(2) by (simp add: c_def)
  have l_pos: "0 < length payload"
    using assms(1) by simp
  have lower: "(n - 1) * c < length payload" and upper: "length payload \<le> n * c"
    unfolding n_def using c_pos l_pos by (rule ceil_div_bounds)+
  have n_pos: "0 < n"
    using upper l_pos by (cases n) simp_all
  have step: "pull (staged ident payload) ident (of_nat i) chunk =
      Sent \<lparr>PayloadPart.Data = take c (drop (i * c) payload), Trailer = [],
            IsLast = (i = n - 1)\<rparr>" if "i < n" for i
  proof -
    have "i \<le> n - 1"
      using that by simp
    then have "i * c \<le> (n - 1) * c"
      by (rule mult_le_mono1)
    with lower have ic: "i * c < length payload"
      by linarith
    have "i \<le> i * c"
      using c_pos by simp
    with ic assms(3) have "i < 2 ^ 31"
      by linarith
    then have si: "sint (of_nat i :: 32 word) = int i"
      by (rule sint_of_nat_small)
    have prod: "sint (of_nat i :: 32 word) * sint chunk = int (i * c)"
      by (simp add: si sc)
    have last: "(int (length payload) \<le> int (i * c) + sint chunk) = (i = n - 1)"
    proof
      assume "int (length payload) \<le> int (i * c) + sint chunk"
      then have "length payload \<le> i * c + c"
        unfolding sc by linarith
      with lower have "(n - 1) * c < Suc i * c"
        by simp
      then have "n - 1 < Suc i"
        by (simp only: mult_less_cancel2)
      with that show "i = n - 1"
        by linarith
    next
      assume "i = n - 1"
      with n_pos have "n = Suc i"
        by simp
      with upper have "length payload \<le> i * c + c"
        by simp
      then show "int (length payload) \<le> int (i * c) + sint chunk"
        unfolding sc by linarith
    qed
    have "pull (staged ident payload) ident (of_nat i) chunk =
        (if int (length payload) \<le> sint (of_nat i :: 32 word) * sint chunk
         then Rejected (TooBigOffset (sint (of_nat i :: 32 word) * sint chunk))
         else Sent \<lparr>PayloadPart.Data = take (nat (sint chunk))
                       (drop (nat (sint (of_nat i :: 32 word) * sint chunk)) payload),
                    Trailer = [],
                    IsLast = (int (length payload)
                      \<le> sint (of_nat i :: 32 word) * sint chunk + sint chunk)\<rparr>)"
    proof (rule pull_in_range)
      show "0 \<le> sint (of_nat i :: 32 word)"
        by (simp add: si)
      show "0 \<le> sint chunk"
        using assms(2) by simp
      have "i * c < 2 ^ 31"
        using ic assms(3) by linarith
      then show "sint (of_nat i :: 32 word) * sint chunk < 2 ^ 31"
        unfolding prod by (metis of_nat_less_iff of_nat_numeral of_nat_power)
    qed
    moreover have "\<not> int (length payload) \<le> int (i * c)"
      using ic by linarith
    ultimately have "pull (staged ident payload) ident (of_nat i) chunk =
        Sent \<lparr>PayloadPart.Data = take (nat (sint chunk)) (drop (nat (int (i * c))) payload),
              Trailer = [], IsLast = (i = n - 1)\<rparr>"
      unfolding prod last by (simp only: if_False)
    moreover have "nat (sint chunk) = c"
      by (simp add: c_def)
    ultimately show ?thesis
      by (simp only: nat_int)
  qed
  show "map (\<lambda>i. pull (staged ident payload) ident (of_nat i) chunk) [0 ..< n] = map Sent parts"
    by (simp add: parts_def step)
  have "concat (map PayloadPart.Data parts) =
      concat (map (\<lambda>i. take c (drop (i * c) payload)) [0 ..< n])"
    by (simp add: parts_def comp_def)
  also have "\<dots> = take (n * c) payload"
    by (rule concat_chunks)
  also have "\<dots> = payload"
    using upper by simp
  finally show "concat (map PayloadPart.Data parts) = payload" .
  have "map IsLast parts = map (\<lambda>i. i = n - 1) [0 ..< n]"
    by (simp add: parts_def comp_def)
  also have "[0 ..< n] = [0 ..< n - 1] @ [n - 1]"
    using n_pos by (cases n) simp_all
  also have "map (\<lambda>i. i = n - 1) ([0 ..< n - 1] @ [n - 1]) = replicate (n - 1) False @ [True]"
    by (simp add: no_last_before)
  finally show "map IsLast parts = replicate (n - 1) False @ [True]" .
qed

section \<open>The log of calls\<close>

lemma log_simps [simp]:
  "calls (log e t) = calls t @ [e]"
  "rldpClients (log e t) = rldpClients t"
  "activeRequests (log e t) = activeRequests t"
  by (simp_all add: log_def)

lemma new_calls_append [simp]: "calls t' = calls t @ evs \<Longrightarrow> new_calls t t' = evs"
  by (simp add: new_calls_def)

lemma query_sessions_append [simp]:
  "query_sessions (xs @ ys) = query_sessions xs @ query_sessions ys"
  by (induction xs rule: query_sessions.induct) simp_all

lemma sent_requests_append [simp]:
  "sent_requests (xs @ ys) = sent_requests xs @ sent_requests ys"
  by (induction xs rule: sent_requests.induct) simp_all

section \<open>The pulling loop\<close>

lemma pull_loop_done:
  "pull_loop w rl qid seqno True buf trailer t = Some (Return (buf, trailer), t)"
  by (subst pull_loop.simps) simp

lemma pull_loop_step:
  "pull_loop w rl qid seqno False buf trailer t =
     (case DoQueryPart w (calls t) (activeRequests t) rl
             \<lparr>GetNextPayloadPart.ID = qid, Seqno = seqno, MaxChunkSize = ChunkSize\<rparr> of
        Inl e \<Rightarrow>
          Some (Fail (QueryPartFailed seqno (External e)),
                log (CallDoQuery rl (QueryPart
                  \<lparr>GetNextPayloadPart.ID = qid, Seqno = seqno, MaxChunkSize = ChunkSize\<rparr>)
                  (activeRequests t)) t)
      | Inr part \<Rightarrow>
          pull_loop w rl qid (seqno + 1) (IsLast part) (buf @ PayloadPart.Data part)
            (set_headers (PayloadPart.Trailer part) trailer)
            (log (CallDoQuery rl (QueryPart
               \<lparr>GetNextPayloadPart.ID = qid, Seqno = seqno, MaxChunkSize = ChunkSize\<rparr>)
               (activeRequests t)) t))"
  by (subst pull_loop.simps) (simp add: Let_def)

text \<open>
  The loop only queries the session it was given, and changes neither the cache nor
  the table of staged bodies.
\<close>

lemma pull_frame_refl: "pull_frame rl t t"
  by (simp add: pull_frame_def part_queries_def)

lemma pull_frame_step:
  assumes "pull_frame rl (log (CallDoQuery rl (QueryPart q) active) t) t'"
  shows "pull_frame rl t t'"
  using assms by (auto simp: pull_frame_def part_queries_def)

lemma pull_loop_frame_raw:
  assumes "pull_loop w rl qid seqno noPayload buf trailer t = Some y"
  shows "pull_frame rl t (snd y)"
proof (rule pull_loop.raw_induct
    [where P = "\<lambda>w rl qid seqno noPayload buf trailer t y. pull_frame rl t (snd y)",
      OF _ assms])
  fix f w rl qid seqno noPayload buf trailer t
  fix y :: "(byte list \<times> (string \<rightharpoonup> string list)) outcome \<times> Transport"
  let ?q = "\<lparr>GetNextPayloadPart.ID = qid, Seqno = seqno, MaxChunkSize = ChunkSize\<rparr>"
  let ?t1 = "log (CallDoQuery rl (QueryPart ?q) (activeRequests t)) t"
  assume IH: "\<And>w rl qid seqno noPayload buf trailer t y.
      f w rl qid seqno noPayload buf trailer t = Some y \<Longrightarrow> pull_frame rl t (snd y)"
    and body: "(if noPayload then Some (Return (buf, trailer), t)
      else let q = ?q; t1 = log (CallDoQuery rl (QueryPart q) (activeRequests t)) t
           in case DoQueryPart w (calls t) (activeRequests t) rl q of
                Inl e \<Rightarrow> Some (Fail (QueryPartFailed seqno (External e)), t1)
              | Inr part \<Rightarrow>
                  f w rl qid (seqno + 1) (IsLast part) (buf @ PayloadPart.Data part)
                    (set_headers (PayloadPart.Trailer part) trailer) t1) = Some y"
  show "pull_frame rl t (snd y)"
  proof (cases noPayload)
    case True
    with body show ?thesis
      by (auto simp: pull_frame_refl)
  next
    case False
    show ?thesis
    proof (cases "DoQueryPart w (calls t) (activeRequests t) rl ?q")
      case (Inl e)
      with False body have "snd y = ?t1"
        by (auto simp: Let_def)
      then show ?thesis
        by (simp add: pull_frame_step [OF pull_frame_refl])
    next
      case (Inr part)
      with False body have "f w rl qid (seqno + 1) (IsLast part)
          (buf @ PayloadPart.Data part) (set_headers (PayloadPart.Trailer part) trailer) ?t1
          = Some y"
        by (simp add: Let_def)
      then have "pull_frame rl ?t1 (snd y)"
        by (rule IH)
      then show ?thesis
        by (rule pull_frame_step)
    qed
  qed
qed

lemma pull_loop_frame:
  assumes "pull_loop w rl qid seqno noPayload buf trailer t = Some (res, t')"
  shows "rldpClients t' = rldpClients t" and "activeRequests t' = activeRequests t"
    and "\<exists>evs. calls t' = calls t @ evs \<and> part_queries rl evs"
  using pull_loop_frame_raw [OF assms] by (simp_all add: pull_frame_def)

lemma part_queries_facts:
  assumes "part_queries rl evs"
  shows "sent_requests evs = []" and "set (query_sessions evs) \<subseteq> {rl}"
    and "list_all (\<lambda>e. \<not> is_setup_call e) evs"
  using assms by (induction evs; auto simp: part_queries_def)+

section \<open>Session establishment only looks up and connects\<close>

lemma setup_only_refl: "setup_only t t"
  by (simp add: setup_only_def)

lemma setup_only_trans: "setup_only t t1 \<Longrightarrow> setup_only t1 t2 \<Longrightarrow> setup_only t t2"
  by (auto simp: setup_only_def)

lemma setup_only_log: "is_setup_call e \<Longrightarrow> setup_only t (log e t)"
  by (simp add: setup_only_def)

lemma setup_only_cache: "setup_only t t1 \<Longrightarrow> setup_only t (t1\<lparr>rldpClients := m\<rparr>)"
  by (simp add: setup_only_def)

lemma resolve_loop_setup:
  "resolve_loop w n host st t = (r, t1) \<Longrightarrow> setup_only t t1"
proof (induction n arbitrary: st t)
  case 0
  then show ?case by (simp add: setup_only_refl)
next
  case (Suc n)
  show ?case
  proof (cases "Resolve w (calls t) host")
    case (Inl e)
    with Suc.prems have "resolve_loop w n host (None, Some (External e))
        (log (CallResolve host) t) = (r, t1)"
      by simp
    then have "setup_only (log (CallResolve host) t) t1"
      by (rule Suc.IH)
    with setup_only_log [of "CallResolve host" t] show ?thesis
      by (simp add: setup_only_trans)
  next
    case (Inr d)
    with Suc.prems have "t1 = log (CallResolve host) t"
      by simp
    then show ?thesis
      by (simp add: setup_only_log)
  qed
qed

lemma connectRLDP_setup:
  assumes "connectRLDP w t key addr ident = (r, t1)"
  shows "setup_only t t1"
proof -
  have a: "setup_only t (log (CallNewADNL key) t)"
    by (simp add: setup_only_log)
  have b: "setup_only t (log (CallConnect addr) (log (CallNewADNL key) t))"
    by (rule setup_only_trans [OF a]) (simp add: setup_only_log)
  from assms show ?thesis
    by (auto simp: connectRLDP_def Let_def a b setup_only_cache split: option.splits)
qed

lemma connect_loop_setup:
  "connect_loop w pubKey host addresses st t = (r, t1) \<Longrightarrow> setup_only t t1"
proof (induction addresses arbitrary: st t)
  case Nil
  then show ?case by (simp add: setup_only_refl)
next
  case (Cons v vs)
  obtain rl err tried where st: "st = (rl, err, tried)"
    by (cases st) auto
  let ?addr = "IP v @ '':'' @ Sprint (Port v)"
  obtain c t2 where c: "connectRLDP w t pubKey ?addr host = (c, t2)"
    by (cases "connectRLDP w t pubKey ?addr host") auto
  then have first: "setup_only t t2"
    by (rule connectRLDP_setup)
  show ?case
  proof (cases c)
    case (Inl e)
    with Cons.prems st c have "connect_loop w pubKey host vs (None, Some e, tried @ [?addr]) t2
        = (r, t1)"
      by (simp add: Let_def)
    then have "setup_only t2 t1"
      by (rule Cons.IH)
    with first show ?thesis
      by (rule setup_only_trans)
  next
    case (Inr s)
    with Cons.prems st c have "t1 = t2"
      by (simp add: Let_def)
    with first show ?thesis
      by simp
  qed
qed

lemma find_adnlID_setup:
  assumes "find_adnlID w t host = (r, t1)"
  shows "setup_only t t1"
proof (cases "HasSuffix host ''.adnl''")
  case True
  with assms have "t1 = t"
    by (auto simp: find_adnlID_def split: outcome.splits)
  then show ?thesis
    by (simp add: setup_only_refl)
next
  case False
  obtain d t2 where loop: "resolve_loop w (Suc (Suc (Suc 0))) host (None, None) t = (d, t2)"
    by (cases "resolve_loop w (Suc (Suc (Suc 0))) host (None, None) t") auto
  with False assms have "t1 = t2"
    by (auto simp: find_adnlID_def split: prod.splits option.splits)
  with resolve_loop_setup [OF loop] show ?thesis
    by simp
qed

lemma acquire_setup:
  assumes "acquire w t request = (a, t1)"
  shows "setup_only t t1"
proof (cases "rldpClients t (Host request)")
  case (Some rl)
  with assms have "t1 = t"
    by (simp add: acquire_def)
  then show ?thesis
    by (simp add: setup_only_refl)
next
  case None
  obtain k t2 where k: "find_adnlID w t (Host request) = (k, t2)"
    by (cases "find_adnlID w t (Host request)") auto
  then have s1: "setup_only t t2"
    by (rule find_adnlID_setup)
  show ?thesis
  proof (cases k)
    case (Return adnlID)
    let ?t3 = "log (CallFindAddresses adnlID) t2"
    have s2: "setup_only t ?t3"
      by (rule setup_only_trans [OF s1]) (simp add: setup_only_log)
    show ?thesis
    proof (cases "FindAddresses w (calls t2) adnlID")
      case (Inl e)
      with None k Return assms have "t1 = ?t3"
        by (simp add: acquire_def Let_def)
      with s2 show ?thesis by simp
    next
      case (Inr found)
      obtain addresses pubKey where found: "found = (addresses, pubKey)"
        by (cases found) auto
      show ?thesis
      proof (cases addresses)
        case None': None
        with None k Return Inr found assms have "t1 = ?t3"
          by (simp add: acquire_def Let_def)
        with s2 show ?thesis by simp
      next
        case (Some addrs)
        obtain c t4 where c: "connect_loop w pubKey (Host request) addrs (None, None, []) ?t3
            = (c, t4)"
          by (cases "connect_loop w pubKey (Host request) addrs (None, None, []) ?t3") auto
        with None k Return Inr found Some assms have "t1 = t4"
          by (auto simp: acquire_def Let_def split: prod.splits option.splits)
        with setup_only_trans [OF s2 connect_loop_setup [OF c]] show ?thesis
          by simp
      qed
    qed
  next
    case (Fail e)
    with None k assms have "t1 = t2"
      by (simp add: acquire_def)
    with s1 show ?thesis by simp
  next
    case Panic
    with None k assms have "t1 = t2"
      by (simp add: acquire_def)
    with s1 show ?thesis by simp
  next
    case Abort
    with None k assms have "t1 = t2"
      by (simp add: acquire_def)
    with s1 show ?thesis by simp
  qed
qed

lemma acquire_hit:
  "rldpClients t (Host request) = Some rl \<Longrightarrow> acquire w t request = (Return (Some rl), t)"
  by (simp add: acquire_def)

section \<open>Building the request and staging the body\<close>

lemma stage_frame:
  assumes "stage w t request = (s, t2)"
  shows "rldpClients t2 = rldpClients t"
    and "\<exists>evs. calls t2 = calls t @ evs \<and> stage_calls evs"
  using assms
  by (auto simp: stage_def Let_def stage_calls_def split: sum.splits option.splits)

lemma stage_Return:
  assumes "stage w t request = (Return (qid, req), t2)"
  shows "\<exists>random. RandRead w (calls t) = Inr random \<and> qid = map random [0 ..< 32]"
    and "req = \<lparr>Request.ID = qid, Method = http_Request.Method request,
                 URL = http_Request.URL request, Version = ''HTTP/1.1'',
                 Headers = build_headers request\<rparr>"
    and "\<And>data. http_Request.Body request = Some (Inr data) \<Longrightarrow>
           activeRequests t2 (EncodeToString qid) =
             Some \<lparr>payloadStream.Data = data,
                   StartTime = Now w (calls t @ [CallRandRead, CallReadAll])\<rparr>"
  using assms
  by (auto simp: stage_def Let_def split: sum.splits option.splits)

lemma stage_first_call:
  assumes "stage w t request = (Return x, t2)"
  shows "\<exists>evs. calls t2 = calls t @ CallRandRead # evs"
  using assms
  by (auto simp: stage_def Let_def split: sum.splits option.splits)

lemma stage_calls_facts:
  assumes "stage_calls evs"
  shows "sent_requests evs = []" and "query_sessions evs = []"
    and "list_all (\<lambda>e. \<not> is_setup_call e) evs"
    and "CallDoQuery rl q active \<notin> set evs"
  using assms by (induction evs; auto simp: stage_calls_def)+

section \<open>The exchange\<close>

lemma exchange_None: "exchange w t None qid req request = Some (Panic, t)"
  by (simp add: exchange_def)

lemma exchange_Some:
  assumes "exchange w t (Some r) qid req request = Some (res, t')"
  shows "rldpClients t' = rldpClients t"
    and "\<exists>evs. calls t' = calls t @ CallDoQuery r (QueryRequest req) (activeRequests t) # evs \<and>
           part_queries r evs"
proof -
  let ?t1 = "log (CallDoQuery r (QueryRequest req) (activeRequests t)) t"
  let ?t2 = "?t1\<lparr>activeRequests := (activeRequests ?t1)(EncodeToString qid := None)\<rparr>"
  have start: "calls ?t2 = calls t @ [CallDoQuery r (QueryRequest req) (activeRequests t)]"
    "rldpClients ?t2 = rldpClients t"
    by simp_all
  have "rldpClients t' = rldpClients t \<and>
      (\<exists>evs. calls t' = calls t @ CallDoQuery r (QueryRequest req) (activeRequests t) # evs \<and>
         part_queries r evs)"
  proof (cases "DoQueryRequest w (calls t) (activeRequests t) r req")
    case (Inl e)
    with assms have "t' = ?t1"
      by (simp add: exchange_def Let_def)
    then show ?thesis
      by (simp add: part_queries_def)
  next
    case (Inr res0)
    show ?thesis
    proof (cases "response_length request")
      case bad: (Inl e)
      with Inr assms have "t' = ?t2"
        by (simp add: exchange_def Let_def)
      then show ?thesis
        by (simp add: part_queries_def)
    next
      case len: (Inr n)
      show ?thesis
      proof (cases "0 < n \<and> \<not> maxAlloc < n \<and> CanAllocate w (calls ?t2) n")
        case False
        with Inr len assms have "t' = ?t2"
          by (auto simp: exchange_def Let_def split: if_splits)
        then show ?thesis
          by (simp add: part_queries_def)
      next
        case True
        with Inr len assms obtain y where
          loop: "pull_loop w r qid 0 (NoPayload res0) [] Map.empty ?t2 = Some (y, t')"
          by (auto simp: exchange_def Let_def split: option.splits outcome.splits prod.splits)
        from pull_loop_frame [OF loop] start show ?thesis
          by auto
      qed
    qed
  qed
  then show "rldpClients t' = rldpClients t"
    and "\<exists>evs. calls t' = calls t @ CallDoQuery r (QueryRequest req) (activeRequests t) # evs \<and>
           part_queries r evs"
    by simp_all
qed

lemma exchange_Return_length:
  assumes "exchange w t rl qid req request = Some (Return resp, t')"
  shows "response_length request = Inr (http_Response.ContentLength resp)"
  using assms
  by (auto simp: exchange_def Let_def
      split: option.splits sum.splits if_splits outcome.splits prod.splits)

section \<open>The shape of a run\<close>

lemma RoundTrip_unfold:
  assumes "RoundTrip w t request = Some (res, t')"
  obtains (no_session) a where "acquire w t request = (a, t')"
      and "\<And>rl. a \<noteq> Return rl" and "\<And>resp. res \<noteq> Return resp"
    | (no_request) rl t1 s where "acquire w t request = (Return rl, t1)"
      and "stage w t1 request = (s, t')" and "\<And>x. s \<noteq> Return x"
      and "\<And>resp. res \<noteq> Return resp"
    | (exchanged) rl t1 qid req t2 where "acquire w t request = (Return rl, t1)"
      and "stage w t1 request = (Return (qid, req), t2)"
      and "exchange w t2 rl qid req request = Some (res, t')"
proof -
  obtain a t1 where a: "acquire w t request = (a, t1)"
    by (cases "acquire w t request") auto
  show ?thesis
  proof (cases a)
    case (Return rl)
    obtain s t2 where s: "stage w t1 request = (s, t2)"
      by (cases "stage w t1 request") auto
    show ?thesis
    proof (cases s)
      case inner: (Return x)
      obtain qid req where x: "x = (qid, req)"
        by (cases x) auto
      from assms a Return s inner x
      have "exchange w t2 rl qid req request = Some (res, t')"
        by (simp add: RoundTrip_def)
      with a Return s inner x show ?thesis
        by (auto intro: exchanged)
    next
      case (Fail e)
      with assms a Return s have "t' = t2" "res = Fail e"
        by (simp_all add: RoundTrip_def)
      with a Return s Fail show ?thesis
        by (auto intro: no_request)
    next
      case Panic
      with assms a Return s have "t' = t2" "res = Panic"
        by (simp_all add: RoundTrip_def)
      with a Return s Panic show ?thesis
        by (auto intro: no_request)
    next
      case Abort
      with assms a Return s have "t' = t2" "res = Abort"
        by (simp_all add: RoundTrip_def)
      with a Return s Abort show ?thesis
        by (auto intro: no_request)
    qed
  next
    case (Fail e)
    with assms a have "t' = t1" "res = Fail e"
      by (simp_all add: RoundTrip_def)
    with a Fail show ?thesis
      by (auto intro: no_session)
  next
    case Panic
    with assms a have "t' = t1" "res = Panic"
      by (simp_all add: RoundTrip_def)
    with a Panic show ?thesis
      by (auto intro: no_session)
  next
    case Abort
    with assms a have "t' = t1" "res = Abort"
      by (simp_all add: RoundTrip_def)
    with a Abort show ?thesis
      by (auto intro: no_session)
  qed
qed

lemma setup_calls_no_request:
  "list_all is_setup_call evs \<Longrightarrow> CallDoQuery rl q active \<notin> set evs"
  by (induction evs) auto

lemma part_queries_no_request:
  "part_queries r evs \<Longrightarrow> CallDoQuery rl (QueryRequest req) active \<notin> set evs"
  by (induction evs) (auto simp: part_queries_def)

text \<open>Every request message in the calls of a run is the one that the exchange sends.\<close>

lemma RoundTrip_request_sent:
  assumes run: "RoundTrip w t request = Some (res, t')"
    and ev: "CallDoQuery rl (QueryRequest req) active \<in> set (new_calls t t')"
  shows "\<exists>t1 t2 qid. acquire w t request = (Return (Some rl), t1) \<and>
           stage w t1 request = (Return (qid, req), t2) \<and> active = activeRequests t2"
  using run
proof (cases rule: RoundTrip_unfold)
  case (no_session a)
  from acquire_setup [OF no_session(1)] ev show ?thesis
    by (auto simp: setup_only_def dest: setup_calls_no_request)
next
  case (no_request rl0 t1 s)
  from acquire_setup [OF no_request(1)] obtain evsA where
    a: "calls t1 = calls t @ evsA" "list_all is_setup_call evsA"
    by (auto simp: setup_only_def)
  from stage_frame(2) [OF no_request(2)] obtain evsS where
    s: "calls t' = calls t1 @ evsS" "stage_calls evsS"
    by auto
  from a s have "new_calls t t' = evsA @ evsS"
    by simp
  with ev setup_calls_no_request [OF a(2)] stage_calls_facts(4) [OF s(2)] show ?thesis
    by auto
next
  case (exchanged rl0 t1 qid req0 t2)
  from acquire_setup [OF exchanged(1)] obtain evsA where
    a: "calls t1 = calls t @ evsA" "list_all is_setup_call evsA"
    by (auto simp: setup_only_def)
  from stage_frame(2) [OF exchanged(2)] obtain evsS where
    s: "calls t2 = calls t1 @ evsS" "stage_calls evsS"
    by auto
  show ?thesis
  proof (cases rl0)
    case None
    with exchanged(3) have "t' = t2"
      by (simp add: exchange_None)
    with a s have "new_calls t t' = evsA @ evsS"
      by simp
    with ev setup_calls_no_request [OF a(2)] stage_calls_facts(4) [OF s(2)] show ?thesis
      by auto
  next
    case (Some r)
    with exchange_Some(2) [of w t2 r qid req0 request res t'] exchanged(3) obtain ps where
      x: "calls t' = calls t2 @ CallDoQuery r (QueryRequest req0) (activeRequests t2) # ps"
        "part_queries r ps"
      by auto
    from a s x have "new_calls t t' =
        evsA @ evsS @ CallDoQuery r (QueryRequest req0) (activeRequests t2) # ps"
      by simp
    with ev setup_calls_no_request [OF a(2)] stage_calls_facts(4) [OF s(2)]
      part_queries_no_request [OF x(2)]
    have "rl = r \<and> req = req0 \<and> active = activeRequests t2"
      by auto
    with exchanged Some show ?thesis
      by auto
  qed
qed

section \<open>The sample runs\<close>

lemma sample_world_simps [simp]:
  "Resolve sample_world h host = Inr (Some \<lparr>SiteRecord = [1, 2, 3]\<rparr>)"
  "FindAddresses sample_world h key = Inr (Some [], [4, 5, 6])"
  "RandRead sample_world h = Inr (\<lambda>i. 0xAB)"
  "Now sample_world h = 0"
  "DoQueryRequest sample_world h active rl req = Inr sample_response"
  "DoQueryPart sample_world h active rl q = Inr sample_part"
  "CanAllocate sample_world h n"
  by (simp_all add: sample_world_def)

lemma failing_world_simps [simp]:
  "RandRead failing_world h = Inr (\<lambda>i. 0xAB)"
  "Now failing_world h = 0"
  "DoQueryRequest failing_world h active rl req = Inl ''timeout''"
  by (simp_all add: failing_world_def sample_world_def)

lemma sample_qid_read: "map (\<lambda>i. 0xAB) [0 ..< 32] = sample_qid"
  by (simp add: sample_qid_def map_replicate_const)

lemma post_headers: "build_headers sample_post = Request.Headers post_request"
  by (simp add: build_headers_def sample_post_def post_request_def)

lemma post_acquire:
  "acquire w connected_transport sample_post = (Return (Some sample_session), connected_transport)"
  by (rule acquire_hit) (simp add: connected_transport_def sample_post_def)

lemma post_stage:
  assumes "RandRead w [] = Inr (\<lambda>i. 0xAB)" and "Now w [CallRandRead, CallReadAll] = 0"
  shows "stage w connected_transport sample_post = (Return (sample_qid, post_request), post_staged_state)"
  using assms
  by (simp add: stage_def Let_def log_def sample_qid_read post_headers connected_transport_def
      post_staged_state_def post_staged_def)
     (simp add: sample_post_def post_request_def)

lemma post_length: "response_length sample_post = Inr 3"
  by (simp add: response_length_def sample_post_def ParseInt_def ParseUint_def)

lemma post_exchange_fail:
  "exchange failing_world post_staged_state (Some sample_session) sample_qid post_request sample_post
     = Some (Fail (QueryHttp (External ''timeout'')), failed_final)"
  by (simp add: exchange_def Let_def log_def post_staged_state_def failed_final_def)

lemma post_exchange:
  "exchange sample_world post_staged_state (Some sample_session) sample_qid post_request sample_post
     = Some (Return post_response, post_final)"
  by (simp add: exchange_def Let_def post_length maxAlloc_def pull_loop_step pull_loop_done
      log_def post_staged_state_def post_final_def post_response_def sample_response_def
      sample_part_def set_headers_def post_staged_def)

lemma post_run:
  "RoundTrip sample_world connected_transport sample_post = Some (Return post_response, post_final)"
  by (simp add: RoundTrip_def post_acquire post_stage post_exchange)

lemma post_run_failing:
  "RoundTrip failing_world connected_transport sample_post =
     Some (Fail (QueryHttp (External ''timeout'')), failed_final)"
  by (simp add: RoundTrip_def post_acquire post_stage post_exchange_fail)

lemma get_acquire:
  "acquire sample_world empty_transport sample_get =
     (Return None,
      \<lparr>rldpClients = Map.empty, activeRequests = Map.empty,
       calls = [CallResolve ''site.ton'', CallFindAddresses [1, 2, 3]]\<rparr>)"
  by (simp add: acquire_def find_adnlID_def HasSuffix_def Let_def log_def
      empty_transport_def sample_get_def)

lemma get_run: "RoundTrip sample_world empty_transport sample_get = Some (Panic, panic_final)"
  by (simp add: RoundTrip_def get_acquire stage_def Let_def log_def exchange_None
      panic_final_def) (simp add: sample_get_def exchange_None)

lemma post_new_calls:
  "new_calls connected_transport post_final =
     [CallRandRead, CallReadAll, CallNow,
      CallDoQuery sample_session (QueryRequest post_request) post_staged,
      CallDoQuery sample_session
        (QueryPart \<lparr>GetNextPayloadPart.ID = sample_qid, Seqno = 0, MaxChunkSize = ChunkSize\<rparr>)
        Map.empty]"
  by (simp add: new_calls_def connected_transport_def post_final_def)

lemma post_request_sent:
  "CallDoQuery sample_session (QueryRequest post_request) post_staged
     \<in> set (new_calls connected_transport post_final)"
  by (simp add: post_new_calls)

section \<open>The top-level dispatch\<close>

text \<open>
  C2. The claim: the staged body of a request is removed from the table by the time
  \<open>RoundTrip\<close> returns, whether the exchange succeeded or failed. When the peer does not
  answer the request, \<open>RoundTrip\<close> returns the error and the body is still in the table;
  when the peer answers, the entry is gone.
\<close>

theorem C2_entry_left_after_failure:
  "RoundTrip failing_world connected_transport sample_post =
     Some (Fail (QueryHttp (External ''timeout'')), failed_final) \<and>
   activeRequests failed_final (EncodeToString sample_qid) =
     Some \<lparr>payloadStream.Data = [1, 2, 3], StartTime = 0\<rparr> \<and>
   RoundTrip sample_world connected_transport sample_post =
     Some (Return post_response, post_final) \<and>
   activeRequests post_final (EncodeToString sample_qid) = None"
  by (simp add: post_run post_run_failing failed_final_def post_final_def post_staged_def)

text \<open>
  C3. The claim: \<open>RoundTrip\<close> returns a response or an error whatever the collaborators
  do, also when the directory lookup succeeds with an empty endpoint list. In that
  case the endpoint loop does not run, no error is set and the session stays nil; the
  first query dereferences it.
\<close>

theorem C3_empty_endpoint_list_panics:
  "FindAddresses sample_world [CallResolve ''site.ton''] [1, 2, 3] = Inr (Some [], [4, 5, 6]) \<and>
   RoundTrip sample_world empty_transport sample_get = Some (Panic, panic_final)"
  by (simp add: get_run)

text \<open>
  C6. The claim as stated: the request message carries a 16-byte identifier. The
  message sent for the sample POST carries 32 bytes.
\<close>

theorem C6_identifier_16_bytes_counterexample:
  "RoundTrip sample_world connected_transport sample_post =
     Some (Return post_response, post_final) \<and>
   sent_requests (new_calls connected_transport post_final) = [post_request] \<and>
   length (Request.ID post_request) = 32 \<and>
   length (Request.ID post_request) \<noteq> 16"
  by (simp add: post_run post_new_calls) (simp add: post_request_def sample_qid_def)

text \<open>
  C6, amended. Every request message that a run of \<open>RoundTrip\<close> sends carries an
  identifier of 32 bytes, and these are the bytes that the random source delivers in
  this run: the answer of \<open>rand.Read\<close> to the call made once the session is there, after
  the calls that \<open>acquire\<close> made (which the random source can tell from those of every
  earlier run, as the log only grows). When the request has a body, the table that the
  peer pulls from holds the body under this identifier.
\<close>

theorem C6_identifier_32_bytes:
  assumes "RoundTrip w t request = Some (res, t')"
    and "CallDoQuery rl (QueryRequest req) active \<in> set (new_calls t t')"
  shows "length (Request.ID req) = 32 \<and>
         (\<exists>t1 random. acquire w t request = (Return (Some rl), t1) \<and>
            RandRead w (calls t1) = Inr random \<and>
            Request.ID req = map random [0 ..< 32] \<and>
            take (Suc (length (calls t1))) (calls t') = calls t1 @ [CallRandRead]) \<and>
         (\<forall>data. http_Request.Body request = Some (Inr data) \<longrightarrow>
            (\<exists>stream. active (EncodeToString (Request.ID req)) = Some stream \<and>
               payloadStream.Data stream = data))"
proof -
  from RoundTrip_request_sent [OF assms] obtain t1 t2 qid where
    acq: "acquire w t request = (Return (Some rl), t1)"
    and st: "stage w t1 request = (Return (qid, req), t2)"
    and act: "active = activeRequests t2"
    by auto
  from stage_Return(1) [OF st] obtain random where
    r: "RandRead w (calls t1) = Inr random" "qid = map random [0 ..< 32]"
    by auto
  from stage_Return(2) [OF st] have ident: "Request.ID req = qid"
    by simp
  from stage_first_call [OF st] obtain evs where t2: "calls t2 = calls t1 @ CallRandRead # evs"
    by auto
  from assms(1) acq st have "exchange w t2 (Some rl) qid req request = Some (res, t')"
    by (simp add: RoundTrip_def)
  from exchange_Some(2) [OF this] obtain more where "calls t' = calls t2 @ more"
    by auto
  with t2 have drawn: "take (Suc (length (calls t1))) (calls t') = calls t1 @ [CallRandRead]"
    by simp
  from stage_Return(3) [OF st] act ident r acq drawn show ?thesis
    by auto
qed

text \<open>
  C6, amended, on the sample POST.
\<close>

theorem C6_identifier_32_bytes_witness:
  "RoundTrip sample_world connected_transport sample_post =
     Some (Return post_response, post_final) \<and>
   CallDoQuery sample_session (QueryRequest post_request) post_staged
     \<in> set (new_calls connected_transport post_final) \<and>
   http_Request.Body sample_post = Some (Inr [1, 2, 3]) \<and>
   length (Request.ID post_request) = 32 \<and>
   (\<exists>t1 random.
      acquire sample_world connected_transport sample_post =
        (Return (Some sample_session), t1) \<and>
      RandRead sample_world (calls t1) = Inr random \<and>
      Request.ID post_request = map random [0 ..< 32] \<and>
      take (Suc (length (calls t1))) (calls post_final) = calls t1 @ [CallRandRead]) \<and>
   (\<exists>stream. post_staged (EncodeToString (Request.ID post_request)) = Some stream \<and>
      payloadStream.Data stream = [1, 2, 3])"
proof -
  have body: "http_Request.Body sample_post = Some (Inr [1, 2, 3])"
    by (simp add: sample_post_def)
  from post_run post_request_sent body
    C6_identifier_32_bytes [OF post_run post_request_sent]
  show ?thesis
    by blast
qed

text \<open>
  C7. When \<open>RoundTrip\<close> returns a response, its content length is the parsed first
  value of the inbound request's \<open>Content-Length\<close> header when the header map has one,
  and \<open>-1\<close> otherwise. The response message of the peer does not occur in it.
\<close>

theorem C7_content_length_from_request:
  assumes "RoundTrip w t request = Some (Return resp, t')"
  shows "case map_of (http_Request.Header request) ''Content-Length'' of
           Some (ln0 # rest) \<Rightarrow> ParseInt ln0 = Inr (http_Response.ContentLength resp)
         | _ \<Rightarrow> http_Response.ContentLength resp = - 1"
  using assms
proof (cases rule: RoundTrip_unfold)
  case (exchanged rl t1 qid req t2)
  from exchange_Return_length [OF exchanged(3)] show ?thesis
    by (auto simp: response_length_def split: option.splits list.splits sum.splits)
qed blast+

text \<open>
  C7 on the sample POST, whose header says 3.
\<close>

theorem C7_content_length_from_request_witness:
  "RoundTrip sample_world connected_transport sample_post =
     Some (Return post_response, post_final) \<and>
   map_of (http_Request.Header sample_post) ''Content-Length'' = Some [''3''] \<and>
   ParseInt ''3'' = Inr (http_Response.ContentLength post_response)"
  using C7_content_length_from_request [OF post_run]
  by (simp add: post_run) (simp add: sample_post_def)

text \<open>
  C8. When the cache has a session for the host, a run of \<open>RoundTrip\<close> makes no call to
  the resolver, the directory or the link layer's connection set-up, sends every query
  through the cached session, and leaves the cache as it was.
\<close>

theorem C8_cached_session_reused:
  assumes "rldpClients t (Host request) = Some rl"
    and "RoundTrip w t request = Some (res, t')"
  shows "rldpClients t' = rldpClients t \<and>
         list_all (\<lambda>e. \<not> is_setup_call e) (new_calls t t') \<and>
         set (query_sessions (new_calls t t')) \<subseteq> {rl}"
  using assms(2)
proof (cases rule: RoundTrip_unfold)
  case (no_session a)
  with acquire_hit [OF assms(1), of w] show ?thesis
    by simp
next
  case (no_request rl0 t1 s)
  with acquire_hit [OF assms(1), of w] have t1: "t1 = t"
    by simp
  from stage_frame [OF no_request(2)] t1 obtain evs where
    "rldpClients t' = rldpClients t" "calls t' = calls t @ evs" "stage_calls evs"
    by auto
  with stage_calls_facts [of evs] show ?thesis
    by simp
next
  case (exchanged rl0 t1 qid req t2)
  with acquire_hit [OF assms(1), of w] have t1: "t1 = t" "rl0 = Some rl"
    by simp_all
  from stage_frame [OF exchanged(2)] t1 obtain evs where
    s: "rldpClients t2 = rldpClients t" "calls t2 = calls t @ evs" "stage_calls evs"
    by auto
  from exchanged(3) t1 have "exchange w t2 (Some rl) qid req request = Some (res, t')"
    by simp
  from exchange_Some [OF this] obtain ps where
    x: "rldpClients t' = rldpClients t2"
      "calls t' = calls t2 @ CallDoQuery rl (QueryRequest req) (activeRequests t2) # ps"
      "part_queries rl ps"
    by auto
  from s x have "new_calls t t' =
      evs @ CallDoQuery rl (QueryRequest req) (activeRequests t2) # ps"
    by simp
  with s x stage_calls_facts [of evs] part_queries_facts [of rl ps] show ?thesis
    by simp
qed

text \<open>
  C8 on the sample POST over the connected transport.
\<close>

theorem C8_cached_session_reused_witness:
  "rldpClients connected_transport (Host sample_post) = Some sample_session \<and>
   RoundTrip sample_world connected_transport sample_post =
     Some (Return post_response, post_final) \<and>
   rldpClients post_final = rldpClients connected_transport \<and>
   list_all (\<lambda>e. \<not> is_setup_call e) (new_calls connected_transport post_final) \<and>
   set (query_sessions (new_calls connected_transport post_final)) \<subseteq> {sample_session}"
proof -
  have hit: "rldpClients connected_transport (Host sample_post) = Some sample_session"
    by (simp add: connected_transport_def sample_post_def)
  from hit post_run C8_cached_session_reused [OF hit post_run] show ?thesis
    by simp
qed

text \<open>
  C10. The claim as stated: for a request with a body and a declared content length
  that is not positive, the request message carries no \<open>Content-Length\<close> header. The
  sample POST declares length 0 and has a \<open>Content-Length\<close> entry in its header map;
  the message sent carries it.
\<close>

theorem C10_content_length_header_counterexample:
  "http_Request.ContentLength sample_post \<le> 0 \<and>
   http_Request.Body sample_post = Some (Inr [1, 2, 3]) \<and>
   RoundTrip sample_world connected_transport sample_post =
     Some (Return post_response, post_final) \<and>
   sent_requests (new_calls connected_transport post_final) = [post_request] \<and>
   \<lparr>Name = ''Content-Length'', Value = ''3''\<rparr> \<in> set (Request.Headers post_request)"
  by (simp add: post_run post_new_calls) (simp add: post_request_def sample_post_def)

text \<open>
  C10, amended. For a request whose body is not nil and reads in full and whose declared
  content length is not positive, every request message that the run sends is sent while
  the table holds the whole body under the message's identifier, and its header list is
  the \<open>Host\<close> header followed by one entry per value of every inbound header: no
  \<open>Content-Length\<close> header is derived from the declared length.
\<close>

theorem C10_body_staged_headers_copied:
  assumes "http_Request.ContentLength request \<le> 0"
    and "http_Request.Body request = Some (Inr data)"
    and "RoundTrip w t request = Some (res, t')"
    and "CallDoQuery rl (QueryRequest req) active \<in> set (new_calls t t')"
  shows "(\<exists>stream. active (EncodeToString (Request.ID req)) = Some stream \<and>
            payloadStream.Data stream = data) \<and>
         Request.Headers req =
           \<lparr>Name = ''Host'', Value = Host request\<rparr> #
           concat (map (\<lambda>(k, v). map (\<lambda>hdr. \<lparr>Name = k, Value = hdr\<rparr>) v)
             (http_Request.Header request))"
proof -
  from RoundTrip_request_sent [OF assms(3,4)] obtain t1 t2 qid where
    st: "stage w t1 request = (Return (qid, req), t2)" and act: "active = activeRequests t2"
    by auto
  from stage_Return(2) [OF st] have req: "Request.ID req = qid"
    "Request.Headers req = build_headers request"
    by simp_all
  from stage_Return(3) [OF st assms(2)] act req(1) assms(1) req(2) show ?thesis
    by (simp add: build_headers_def)
qed

text \<open>
  C10, amended, on the sample POST.
\<close>

theorem C10_body_staged_headers_copied_witness:
  "http_Request.ContentLength sample_post \<le> 0 \<and>
   http_Request.Body sample_post = Some (Inr [1, 2, 3]) \<and>
   RoundTrip sample_world connected_transport sample_post =
     Some (Return post_response, post_final) \<and>
   CallDoQuery sample_session (QueryRequest post_request) post_staged
     \<in> set (new_calls connected_transport post_final) \<and>
   (\<exists>stream. post_staged (EncodeToString (Request.ID post_request)) = Some stream \<and>
      payloadStream.Data stream = [1, 2, 3]) \<and>
   Request.Headers post_request =
     \<lparr>Name = ''Host'', Value = Host sample_post\<rparr> #
     concat (map (\<lambda>(k, v). map (\<lambda>hdr. \<lparr>Name = k, Value = hdr\<rparr>) v)
       (http_Request.Header sample_post))"
proof -
  have len: "http_Request.ContentLength sample_post \<le> 0"
    and body: "http_Request.Body sample_post = Some (Inr [1, 2, 3])"
    by (simp_all add: sample_post_def)
  from len body post_run post_request_sent
    C10_body_staged_headers_copied [OF len body post_run post_request_sent]
  show ?thesis
    by blast
qed

end
